theory Spec2Isabelle
  imports Complex_Main
begin

section \<open>Session lifecycle manager (janitor): a shallow embedding\<close>

text \<open>
  The development follows the JavaScript sources of the session lifecycle manager:
  the Monitor (\<^verbatim>\<open>SessionMonitor\<close>), the Pruner (\<^verbatim>\<open>SessionPruner\<close>), the Emergency Handler
  (\<^verbatim>\<open>EmergencyCleanup\<close>), the Archiver (\<^verbatim>\<open>SessionArchiver\<close>), the Watcher
  (\<^verbatim>\<open>ContextWatcher\<close>), the Analyzer (\<^verbatim>\<open>SessionAnalyzer\<close>) and the configuration manager
  (\<^verbatim>\<open>ConfigManager\<close>).

  Conventions of the embedding.
  \<^item> JavaScript numbers are modelled by exact rationals (\<^typ>\<open>rat\<close>), counts by \<^typ>\<open>nat\<close>;
    rounding errors of IEEE doubles are not modelled.
  \<^item> A \<^verbatim>\<open>Date\<close> is its number of milliseconds since the epoch (\<^typ>\<open>int\<close>); every
    operation receives the reading of \<^verbatim>\<open>Date.now()\<close> as the parameter \<open>now\<close> (one reading per
    operation).
  \<^item> An exception is a value \<open>Inl e\<close> of a sum type; \<^verbatim>\<open>try/catch\<close> is a case distinction.
  \<^item> The file system is explicit state: the live session directory is a list of session
    files, an archive directory is a finite table of bundles.
\<close>

subsection \<open>Sessions as the Monitor reports them\<close>

datatype priority = High | Medium | Low

text \<open>
  The objects of \<^verbatim>\<open>usage.sessions\<close>. The field \<open>pruneScore\<close> is absent (\<open>None\<close>) until
  \<^verbatim>\<open>_sortByPruneScore\<close> adds it to a copy of the object.
\<close>

record session =
  sessionId :: string
  path :: string
  tokenCount :: nat
  messageCount :: nat
  lastActive :: int
  priority :: priority
  pruneScore :: "rat option"

subsection \<open>The Pruner: configuration and selection\<close>

text \<open>
  The configuration object of \<^verbatim>\<open>SessionPruner\<close> after the constructor has merged the
  caller's object over the defaults.
\<close>

record pruner_config =
  maxSessionAge :: rat
  maxContextTokens :: nat
  keepRecentHours :: rat
  keepMinimumSessions :: nat
  minMessagesForImportant :: rat
  preservePinned :: bool
  preserveHighEngagement :: bool

definition default_pruner_config :: pruner_config where
  "default_pruner_config =
     \<lparr> maxSessionAge = 7, maxContextTokens = 160000, keepRecentHours = 24,
       keepMinimumSessions = 5, minMessagesForImportant = 10,
       preservePinned = True, preserveHighEngagement = True \<rparr>"

definition ageMs :: "int \<Rightarrow> session \<Rightarrow> rat" where
  "ageMs now s = of_int (now - lastActive s)"

definition ageHours :: "int \<Rightarrow> session \<Rightarrow> rat" where
  "ageHours now s = ageMs now s / (1000 * 60 * 60)"

text \<open>\<^verbatim>\<open>_isProtected\<close>: recent sessions, and (when enabled) sessions with many messages.\<close>

definition isProtected :: "pruner_config \<Rightarrow> int \<Rightarrow> session \<Rightarrow> bool" where
  "isProtected cfg now s =
     (if ageHours now s < keepRecentHours cfg then True
      else if preserveHighEngagement cfg \<and>
              of_nat (messageCount s) \<ge> minMessagesForImportant cfg then True
      else False)"

text \<open>\<^verbatim>\<open>_conservativePrune\<close>: the sessions strictly older than \<open>maxSessionAge\<close> days.\<close>

definition conservativePrune :: "pruner_config \<Rightarrow> int \<Rightarrow> session list \<Rightarrow> session list" where
  "conservativePrune cfg now sessions =
     (let maxAgeMs = maxSessionAge cfg * 24 * 60 * 60 * 1000
      in filter (\<lambda>s. ageMs now s > maxAgeMs) sessions)"

text \<open>\<^verbatim>\<open>_calculatePruneScore\<close>: the higher the score, the more important it is to keep.\<close>

definition calculatePruneScore :: "int \<Rightarrow> session \<Rightarrow> rat" where
  "calculatePruneScore now s =
     (let recencyScore = max 0 (100 - ageHours now s);
          messageScore = min 100 (of_nat (messageCount s) * 5);
          tokenScore = min 100 ((of_nat (tokenCount s) / 10000) * 100);
          score = recencyScore * (4 / 10) + messageScore * (3 / 10) + tokenScore * (2 / 10);
          score1 = (if priority s = High then score + 50 else score);
          score2 = (if priority s = Medium then score1 + 25 else score1)
      in score2)"

definition scoreKey :: "session \<Rightarrow> rat" where
  "scoreKey s = (case pruneScore s of Some x \<Rightarrow> x | None \<Rightarrow> 0)"

text \<open>
  \<^verbatim>\<open>_sortByPruneScore\<close>: copies with the score attached, sorted by ascending score.
  \<^verbatim>\<open>Array.prototype.sort\<close> is stable, as \<^const>\<open>sort_key\<close> is.
\<close>

definition withPruneScore :: "int \<Rightarrow> session \<Rightarrow> session" where
  "withPruneScore now s = s\<lparr>pruneScore := Some (calculatePruneScore now s)\<rparr>"

definition sortByPruneScore :: "int \<Rightarrow> session list \<Rightarrow> session list" where
  "sortByPruneScore now sessions = sort_key scoreKey (map (withPruneScore now) sessions)"

text \<open>\<^verbatim>\<open>Math.ceil(length * fraction)\<close>.\<close>

definition ceilCount :: "nat \<Rightarrow> rat \<Rightarrow> nat" where
  "ceilCount len fraction = nat \<lceil>of_nat len * fraction\<rceil>"

text \<open>
  The loop of \<^verbatim>\<open>_moderatePrune\<close> that pushes a ranked session unless a target with the
  same id is already there.
\<close>

fun pushMissing :: "session list \<Rightarrow> session list \<Rightarrow> session list" where
  "pushMissing targets [] = targets"
| "pushMissing targets (c # cs) =
     pushMissing
       (case find (\<lambda>t. sessionId t = sessionId c) targets of
          None \<Rightarrow> targets @ [c]
        | Some t \<Rightarrow> targets) cs"

definition moderatePrune ::
  "pruner_config \<Rightarrow> int \<Rightarrow> session list \<Rightarrow> rat \<Rightarrow> session list" where
  "moderatePrune cfg now sessions utilizationPercent =
     (let targets = conservativePrune cfg now sessions
      in if utilizationPercent > 80
         then (let sortedByScore = sortByPruneScore now sessions;
                   pruneCount = ceilCount (length sortedByScore) (25 / 100)
               in pushMissing targets (take pruneCount sortedByScore))
         else targets)"

text \<open>\<^verbatim>\<open>_aggressivePrune\<close>: the fraction of the ranking that is removed, and the selection.\<close>

definition prunePercent :: "rat \<Rightarrow> rat" where
  "prunePercent utilizationPercent =
     (if utilizationPercent > 95 then 70 / 100
      else if utilizationPercent > 90 then 50 / 100
      else if utilizationPercent > 80 then 35 / 100
      else 25 / 100)"

definition aggressivePrune :: "int \<Rightarrow> session list \<Rightarrow> rat \<Rightarrow> session list" where
  "aggressivePrune now sessions utilizationPercent =
     (let sortedByScore = sortByPruneScore now sessions;
          pruneCount = ceilCount (length sortedByScore) (prunePercent utilizationPercent)
      in take pruneCount sortedByScore)"

text \<open>
  The fraction as the specification words it: 25% above 80, 35% above 90, 50% above 90,
  70% above 95, the highest applicable band winning (no band applies at or below 80).
\<close>

definition spec_bands :: "(rat \<times> rat) list" where
  "spec_bands = [(80, 25 / 100), (90, 35 / 100), (90, 50 / 100), (95, 70 / 100)]"

definition spec_aggressiveFraction :: "rat \<Rightarrow> rat option" where
  "spec_aggressiveFraction utilizationPercent =
     (case map snd (filter (\<lambda>b. utilizationPercent > fst b) spec_bands) of
        [] \<Rightarrow> None
      | f # fs \<Rightarrow> Some (fold max fs f))"

text \<open>\<^verbatim>\<open>_emergencyPrune\<close>: everything older than the keep-recent window.\<close>

definition emergencyPrune :: "pruner_config \<Rightarrow> int \<Rightarrow> session list \<Rightarrow> session list" where
  "emergencyPrune cfg now sessions =
     (let keepRecentMs = keepRecentHours cfg * 60 * 60 * 1000
      in filter (\<lambda>s. ageMs now s > keepRecentMs) sessions)"

text \<open>
  \<^verbatim>\<open>_selectPruneTargets\<close>: protected sessions are filtered out first, then the strategy
  (a string; an unknown one falls to the default branch) chooses among the rest.
\<close>

definition selectPruneTargets ::
  "pruner_config \<Rightarrow> int \<Rightarrow> session list \<Rightarrow> string \<Rightarrow> rat \<Rightarrow> session list" where
  "selectPruneTargets cfg now sessions strategy utilizationPercent =
     (let prunableSessions = filter (\<lambda>s. \<not> isProtected cfg now s) sessions
      in if length prunableSessions = 0 then []
         else if strategy = ''conservative'' then conservativePrune cfg now prunableSessions
         else if strategy = ''moderate''
           then moderatePrune cfg now prunableSessions utilizationPercent
         else if strategy = ''aggressive''
           then aggressivePrune now prunableSessions utilizationPercent
         else if strategy = ''emergency'' then emergencyPrune cfg now prunableSessions
         else moderatePrune cfg now prunableSessions utilizationPercent)"

text \<open>\<^verbatim>\<open>getRecommendedStrategy\<close>.\<close>

definition getRecommendedStrategy :: "rat \<Rightarrow> string" where
  "getRecommendedStrategy utilizationPercent =
     (if utilizationPercent \<ge> 95 then ''emergency''
      else if utilizationPercent \<ge> 85 then ''aggressive''
      else if utilizationPercent \<ge> 75 then ''moderate''
      else ''conservative'')"

subsection \<open>The live session directory and the Monitor\<close>

text \<open>
  A session file of the live directory: its id (the file name without \<^verbatim>\<open>.json\<close>), what
  \<^verbatim>\<open>countSessionTokens\<close> and \<^verbatim>\<open>getMessageCount\<close> return for its content, its modification
  time, and whether \<^verbatim>\<open>unlink\<close> succeeds on it.
\<close>

record session_file =
  fileId :: string
  fileTokens :: nat
  fileMessages :: nat
  mtime :: int
  deletable :: bool

definition sessionFilePath :: "session_file \<Rightarrow> string" where
  "sessionFilePath f = fileId f @ ''.json''"

record monitor_config =
  maxTokens :: rat
  m_alertThreshold :: rat
  m_emergencyThreshold :: rat

definition default_monitor_config :: monitor_config where
  "default_monitor_config =
     \<lparr> maxTokens = 200000, m_alertThreshold = 80, m_emergencyThreshold = 95 \<rparr>"

datatype status_level = CRITICAL | WARNING | MODERATE | OK

record usage =
  currentTokens :: nat
  utilizationPercent :: rat
  sessions :: "session list"
  status :: status_level

text \<open>\<^verbatim>\<open>_calculatePriority\<close>.\<close>

definition calculatePriority :: "int \<Rightarrow> nat \<Rightarrow> nat \<Rightarrow> int \<Rightarrow> priority" where
  "calculatePriority now tokens messages lastModified =
     (let ageH = (of_int (now - lastModified) :: rat) / (1000 * 60 * 60)
      in if ageH < 24 \<and> messages > 10 then High
         else if ageH < 168 \<or> messages > 5 then Medium
         else Low)"

text \<open>\<^verbatim>\<open>_getStatus\<close>.\<close>

definition getStatus :: "monitor_config \<Rightarrow> rat \<Rightarrow> status_level" where
  "getStatus mcfg percent =
     (if percent \<ge> m_emergencyThreshold mcfg then CRITICAL
      else if percent \<ge> m_alertThreshold mcfg then WARNING
      else if percent \<ge> 60 then MODERATE
      else OK)"

text \<open>\<^verbatim>\<open>Math.round\<close>: the nearest integer, halves rounded up.\<close>

definition mathRound :: "rat \<Rightarrow> int" where
  "mathRound x = \<lfloor>x + 1 / 2\<rfloor>"

definition sessionInfo :: "int \<Rightarrow> session_file \<Rightarrow> session" where
  "sessionInfo now f =
     \<lparr> sessionId = fileId f, path = sessionFilePath f, tokenCount = fileTokens f,
       messageCount = fileMessages f, lastActive = mtime f,
       priority = calculatePriority now (fileTokens f) (fileMessages f) (mtime f),
       pruneScore = None \<rparr>"

text \<open>
  \<^verbatim>\<open>getContextUsage\<close>: one object per session file, the total, the utilization rounded to
  two decimals, and the sessions sorted by descending token count (a stable sort).
\<close>

definition getContextUsage :: "monitor_config \<Rightarrow> int \<Rightarrow> session_file list \<Rightarrow> usage" where
  "getContextUsage mcfg now store =
     (let info = map (sessionInfo now) store;
          totalTokens = sum_list (map tokenCount info);
          percent = (of_nat totalTokens / maxTokens mcfg) * 100
      in \<lparr> currentTokens = totalTokens,
           utilizationPercent = of_int (mathRound (percent * 100)) / 100,
           sessions = sort_key (\<lambda>s. - int (tokenCount s)) info,
           status = getStatus mcfg percent \<rparr>)"

subsection \<open>Deleting session files: \<^verbatim>\<open>SessionPruner.prune\<close>\<close>

datatype fs_error = ENOENT | EACCES

text \<open>\<^verbatim>\<open>fs.promises.unlink\<close> on the live directory.\<close>

definition unlink :: "session_file list \<Rightarrow> string \<Rightarrow> fs_error + session_file list" where
  "unlink store p =
     (case find (\<lambda>f. sessionFilePath f = p) store of
        None \<Rightarrow> Inl ENOENT
      | Some f \<Rightarrow>
          if deletable f then Inr (filter (\<lambda>g. sessionFilePath g \<noteq> p) store)
          else Inl EACCES)"

record prune_results =
  pr_strategy :: string
  sessionsPruned :: nat
  tokensFreed :: nat
  sessionsPreserved :: int
  prunedSessions :: "(string \<times> nat \<times> nat) list"

text \<open>
  The loop of \<^verbatim>\<open>prune\<close>: each target is unlinked; a failure is logged and the loop goes on.
  (The in-memory prune log and the printed age are left out.)
\<close>

fun pruneLoop ::
  "session_file list \<Rightarrow> prune_results \<Rightarrow> session list \<Rightarrow> session_file list \<times> prune_results"
where
  "pruneLoop store results [] = (store, results)"
| "pruneLoop store results (s # ss) =
     (case unlink store (path s) of
        Inr store' \<Rightarrow>
          pruneLoop store'
            (results\<lparr> sessionsPruned := sessionsPruned results + 1,
                      tokensFreed := tokensFreed results + tokenCount s,
                      prunedSessions :=
                        prunedSessions results @ [(sessionId s, tokenCount s, messageCount s)] \<rparr>)
            ss
      | Inl e \<Rightarrow> pruneLoop store results ss)"

definition prune ::
  "pruner_config \<Rightarrow> monitor_config \<Rightarrow> int \<Rightarrow> session_file list \<Rightarrow> string \<Rightarrow>
     session_file list \<times> prune_results" where
  "prune cfg mcfg now store strategy =
     (let usage = getContextUsage mcfg now store;
          pruneTargets =
            selectPruneTargets cfg now (sessions usage) strategy (utilizationPercent usage);
          results =
            \<lparr> pr_strategy = strategy, sessionsPruned = 0, tokensFreed = 0,
              sessionsPreserved = int (length (sessions usage)) - int (length pruneTargets),
              prunedSessions = [] \<rparr>
      in pruneLoop store results pruneTargets)"

subsection \<open>The Archiver, as the cleanup paths use it\<close>

text \<open>
  The archive directory: the bundles (name and the session file names each holds), the
  index, and two facts of the environment: whether \<^verbatim>\<open>tar\<close> succeeds and whether the index
  file can be written.
\<close>

record index_entry =
  archiveName :: string
  ie_reason :: string
  sessionCount :: nat
  ie_sessions :: "(string \<times> nat \<times> nat) list"

record archiver_state =
  bundles :: "(string \<times> string list) list"
  archiveIndex :: "index_entry list"
  tarOk :: bool
  indexWritable :: bool

record archive_result =
  archived :: nat
  ar_archiveName :: "string option"

datatype archive_error = ArchiveFailed

text \<open>
  \<^verbatim>\<open>archiveSessions\<close> with compression enabled (the default). Every session file is copied
  to a scratch directory (a missing source makes \<^verbatim>\<open>copyFile\<close> fail), the scratch
  directory is packed into \<^verbatim>\<open>sessions-<date>.tar.gz\<close> (replacing a bundle of the same day),
  and the index gets one more entry. Any failure is rethrown as \<open>ArchiveFailed\<close>.
  The state is returned in both cases, since a bundle may have been written before the
  index update failed.
\<close>

definition archiveSessions ::
  "string \<Rightarrow> session_file list \<Rightarrow> archiver_state \<Rightarrow> session list \<Rightarrow> string \<Rightarrow>
     (archive_error + archive_result) \<times> archiver_state" where
  "archiveSessions date store ast toArchive reason =
     (if length toArchive = 0 then (Inr \<lparr> archived = 0, ar_archiveName = None \<rparr>, ast)
      else
        let name = ''sessions-'' @ date @ ''.tar.gz''
        in if list_ex (\<lambda>s. find (\<lambda>f. sessionFilePath f = path s) store = None) toArchive
           then (Inl ArchiveFailed, ast)
           else if \<not> tarOk ast then (Inl ArchiveFailed, ast)
           else
             let ast1 = ast\<lparr> bundles :=
                               (name, map path toArchive) #
                                 filter (\<lambda>b. fst b \<noteq> name) (bundles ast) \<rparr>
             in if \<not> indexWritable ast then (Inl ArchiveFailed, ast1)
                else
                  (Inr \<lparr> archived = length toArchive, ar_archiveName = Some name \<rparr>,
                   ast1\<lparr> archiveIndex :=
                           archiveIndex ast1 @
                             [\<lparr> archiveName = name, ie_reason = reason,
                                sessionCount = length toArchive,
                                ie_sessions =
                                  map (\<lambda>s. (sessionId s, tokenCount s, messageCount s))
                                    toArchive \<rparr>] \<rparr>))"

text \<open>The session file paths that some bundle of the archive directory holds.\<close>

definition archivedPaths :: "archiver_state \<Rightarrow> string set" where
  "archivedPaths ast = set (concat (map snd (bundles ast)))"

record system =
  live :: "session_file list"
  arch :: archiver_state

subsection \<open>The Emergency Handler\<close>

record emergency_config =
  e_keepRecentHours :: rat
  e_keepMinimumSessions :: nat
  e_emergencyThreshold :: rat

definition default_emergency_config :: emergency_config where
  "default_emergency_config =
     \<lparr> e_keepRecentHours = 6, e_keepMinimumSessions = 3, e_emergencyThreshold = 95 \<rparr>"

record emergency_result =
  er_before_sessions :: nat
  er_archived :: "nat option"
  er_deleted :: nat
  er_kept :: nat
  er_tokensFreed :: nat
  er_after_sessions :: "nat option"
  er_success :: bool
  er_error :: "string option"

text \<open>
  Step 2 of \<^verbatim>\<open>execute\<close>: the sessions younger than the keep-recent window, most recent
  first, cut to \<open>keepMinimumSessions\<close> entries.
\<close>

definition sessionsToKeep :: "emergency_config \<Rightarrow> int \<Rightarrow> session list \<Rightarrow> session list" where
  "sessionsToKeep ecfg now ss =
     (let keepRecentMs = e_keepRecentHours ecfg * 60 * 60 * 1000
      in take (e_keepMinimumSessions ecfg)
           (sort_key (\<lambda>s. - lastActive s) (filter (\<lambda>s. ageMs now s < keepRecentMs) ss)))"

text \<open>Step 3: every session that is not in the keep list (by id) is unlinked.\<close>

fun deleteLoop ::
  "session list \<Rightarrow> session_file list \<Rightarrow> nat \<Rightarrow> nat \<Rightarrow> session list \<Rightarrow>
     session_file list \<times> nat \<times> nat" where
  "deleteLoop keep store deletedCount freed [] = (store, deletedCount, freed)"
| "deleteLoop keep store deletedCount freed (s # ss) =
     (if list_ex (\<lambda>k. sessionId k = sessionId s) keep
      then deleteLoop keep store deletedCount freed ss
      else (case unlink store (path s) of
              Inr store' \<Rightarrow> deleteLoop keep store' (deletedCount + 1) (freed + tokenCount s) ss
            | Inl e \<Rightarrow> deleteLoop keep store deletedCount freed ss))"

text \<open>
  \<^verbatim>\<open>execute\<close>. All sessions are archived first; when that throws, the handler returns the
  error and deletes nothing. The report generated for the notification reads the name of
  the archive, which is undefined when there was nothing to archive: that \<^verbatim>\<open>TypeError\<close> is
  caught by the same handler.
\<close>

definition execute ::
  "emergency_config \<Rightarrow> monitor_config \<Rightarrow> int \<Rightarrow> string \<Rightarrow> system \<Rightarrow>
     emergency_result \<times> system" where
  "execute ecfg mcfg now date sys =
     (let beforeUsage = getContextUsage mcfg now (live sys);
          result0 =
            \<lparr> er_before_sessions = length (sessions beforeUsage), er_archived = None,
              er_deleted = 0, er_kept = 0, er_tokensFreed = 0, er_after_sessions = None,
              er_success = False, er_error = None \<rparr>
      in case archiveSessions date (live sys) (arch sys) (sessions beforeUsage)
                ''emergency-cleanup'' of
           (Inl e, ast) \<Rightarrow>
             (result0\<lparr> er_error := Some ''Archive failed'' \<rparr>, sys\<lparr> arch := ast \<rparr>)
         | (Inr archiveResult, ast) \<Rightarrow>
             let keep = sessionsToKeep ecfg now (sessions beforeUsage);
                 (store', deletedCount, freed) =
                   deleteLoop keep (live sys) 0 0 (sessions beforeUsage);
                 afterUsage = getContextUsage mcfg now store';
                 result1 =
                   result0\<lparr> er_archived := Some (archived archiveResult),
                            er_deleted := deletedCount, er_kept := length keep,
                            er_tokensFreed := freed,
                            er_after_sessions := Some (length (sessions afterUsage)),
                            er_success :=
                              utilizationPercent afterUsage < e_emergencyThreshold ecfg \<rparr>;
                 sys' = \<lparr> live = store', arch = ast \<rparr>
             in case ar_archiveName archiveResult of
                  None \<Rightarrow>
                    (result1\<lparr> er_success := False, er_error := Some ''TypeError'' \<rparr>, sys')
                | Some n \<Rightarrow> (result1, sys'))"

subsection \<open>The Watcher: one check\<close>

record watcher_config =
  w_enabled :: bool
  intervalMinutes :: rat
  w_alertThreshold :: rat
  w_emergencyThreshold :: rat
  autoCleanup :: bool

definition default_watcher_config :: watcher_config where
  "default_watcher_config =
     \<lparr> w_enabled = True, intervalMinutes = 5, w_alertThreshold = 80,
       w_emergencyThreshold = 95, autoCleanup = True \<rparr>"

text \<open>The Watcher's own \<^verbatim>\<open>_isProtected\<close>, with its fixed floors.\<close>

definition watcherIsProtected :: "int \<Rightarrow> session \<Rightarrow> bool" where
  "watcherIsProtected now s =
     (if ageHours now s < 24 then True
      else if messageCount s \<ge> 10 then True
      else if priority s = High then True
      else False)"

text \<open>
  \<^verbatim>\<open>_triggerRoutineCleanup\<close>: the Watcher archives its own choice (the oldest fraction of
  the sessions it considers unprotected) and then calls \<^verbatim>\<open>prune\<close> with the recommended
  strategy. An exception of the Archiver is caught and ends the cleanup. The boolean says
  whether the cleanup counter was incremented.
\<close>

definition triggerRoutineCleanup ::
  "pruner_config \<Rightarrow> monitor_config \<Rightarrow> int \<Rightarrow> string \<Rightarrow> rat \<Rightarrow> system \<Rightarrow> system \<times> bool" where
  "triggerRoutineCleanup pcfg mcfg now date percent sys =
     (let strategy = getRecommendedStrategy percent;
          usage = getContextUsage mcfg now (live sys);
          sessionsToPrune =
            sort_key lastActive (filter (\<lambda>s. \<not> watcherIsProtected now s) (sessions usage));
          pruneCount =
            (if percent > 90 then ceilCount (length sessionsToPrune) (5 / 10)
             else if percent > 85 then ceilCount (length sessionsToPrune) (35 / 100)
             else ceilCount (length sessionsToPrune) (25 / 100));
          toPrune = take pruneCount sessionsToPrune
      in if length toPrune = 0 then (sys, False)
         else case archiveSessions date (live sys) (arch sys) toPrune ''auto-cleanup'' of
                (Inl e, ast) \<Rightarrow> (sys\<lparr> arch := ast \<rparr>, False)
              | (Inr archiveResult, ast) \<Rightarrow>
                  let (store', pruneResult) = prune pcfg mcfg now (live sys) strategy
                  in (\<lparr> live = store', arch = ast \<rparr>, True))"

text \<open>
  \<^verbatim>\<open>_performCheck\<close>: the body of one tick. The boolean says whether a cleanup was counted
  (\<^verbatim>\<open>_triggerEmergencyCleanup\<close> counts every run of the Emergency Handler).
\<close>

definition performCheck ::
  "watcher_config \<Rightarrow> pruner_config \<Rightarrow> emergency_config \<Rightarrow> monitor_config \<Rightarrow> int \<Rightarrow> string \<Rightarrow>
     system \<Rightarrow> system \<times> bool" where
  "performCheck wcfg pcfg ecfg mcfg now date sys =
     (let usage = getContextUsage mcfg now (live sys)
      in if utilizationPercent usage \<ge> w_emergencyThreshold wcfg
         then (if autoCleanup wcfg
               then (snd (execute ecfg mcfg now date sys), True)
               else (sys, False))
         else if utilizationPercent usage \<ge> w_alertThreshold wcfg
         then (if autoCleanup wcfg
               then triggerRoutineCleanup pcfg mcfg now date (utilizationPercent usage) sys
               else (sys, False))
         else (sys, False))"

text \<open>
  A session file is eligible for the conservative strategy at a given clock reading when it
  is unprotected and strictly older than \<open>maxSessionAge\<close> days.
\<close>

definition conservativeEligible :: "pruner_config \<Rightarrow> int \<Rightarrow> session_file \<Rightarrow> bool" where
  "conservativeEligible cfg now f =
     (\<not> isProtected cfg now (sessionInfo now f) \<and>
      ageMs now (sessionInfo now f) > maxSessionAge cfg * 24 * 60 * 60 * 1000)"

subsection \<open>The Archiver: \<^verbatim>\<open>restore\<close>\<close>

text \<open>
  What \<^verbatim>\<open>restore\<close> finds under the archive path: a \<^verbatim>\<open>.tar.gz\<close> file, given by what
  extracting it yields (\<open>None\<close> when \<^verbatim>\<open>tar\<close> fails, else the top-level entries), or a directory
  of session files (an uncompressed archive). A session file is its name and content.
\<close>

datatype extracted_entry = EFile string | EDir "(string \<times> string) list"

datatype archive_object =
    TarGz "(string \<times> extracted_entry) list option"
  | Directory "(string \<times> string) list"

datatype restore_error = ArchiveNotFound | RestoreFailed

record restore_report =
  restored :: nat
  skipped :: nat

definition endsWith :: "string \<Rightarrow> string \<Rightarrow> bool" where
  "endsWith s suffix =
     (length suffix \<le> length s \<and> drop (length s - length suffix) s = suffix)"

text \<open>
  The first half of \<^verbatim>\<open>restore\<close>: the listing \<^verbatim>\<open>sessions\<close> of the files to copy back. For a
  \<^verbatim>\<open>.tar.gz\<close> name the archive is extracted and the first extracted entry is listed; any
  other name is listed as a directory.
\<close>

definition openArchive ::
  "string \<Rightarrow> archive_object \<Rightarrow> restore_error + (string \<times> string) list" where
  "openArchive name obj =
     (if endsWith name ''.tar.gz''
      then (case obj of
              TarGz None \<Rightarrow> Inl RestoreFailed
            | TarGz (Some []) \<Rightarrow> Inl RestoreFailed
            | TarGz (Some ((n, EFile c) # rest)) \<Rightarrow> Inl RestoreFailed
            | TarGz (Some ((n, EDir files) # rest)) \<Rightarrow> Inr files
            | Directory files \<Rightarrow> Inl RestoreFailed)
      else (case obj of
              Directory files \<Rightarrow> Inr files
            | TarGz x \<Rightarrow> Inl RestoreFailed))"

text \<open>
  The copy loop: a name that exists in the target directory is skipped, any other file is
  copied (\<^verbatim>\<open>copyFile\<close> throws where the target is not writable) and counted.
\<close>

fun copyBack ::
  "(string \<Rightarrow> bool) \<Rightarrow> (string \<rightharpoonup> string) \<Rightarrow> nat \<Rightarrow> (string \<times> string) list \<Rightarrow>
     (restore_error + nat) \<times> (string \<rightharpoonup> string)" where
  "copyBack writable dir restoredCount [] = (Inr restoredCount, dir)"
| "copyBack writable dir restoredCount (f # fs) =
     (if dir (fst f) \<noteq> None then copyBack writable dir restoredCount fs
      else if writable (fst f)
           then copyBack writable (dir(fst f \<mapsto> snd f)) (restoredCount + 1) fs
           else (Inl RestoreFailed, dir))"

definition restore ::
  "(string \<rightharpoonup> archive_object) \<Rightarrow> (string \<Rightarrow> bool) \<Rightarrow> string \<Rightarrow> (string \<rightharpoonup> string) \<Rightarrow>
     (restore_error + restore_report) \<times> (string \<rightharpoonup> string)" where
  "restore archives writable name dir =
     (case archives name of
        None \<Rightarrow> (Inl ArchiveNotFound, dir)
      | Some obj \<Rightarrow>
          (case openArchive name obj of
             Inl e \<Rightarrow> (Inl RestoreFailed, dir)
           | Inr files \<Rightarrow>
               (case copyBack writable dir 0 files of
                  (Inl e, dir') \<Rightarrow> (Inl RestoreFailed, dir')
                | (Inr restoredCount, dir') \<Rightarrow>
                    (Inr \<lparr> restored = restoredCount,
                           skipped = length files - restoredCount \<rparr>, dir'))))"

subsection \<open>The configuration manager\<close>

text \<open>
  The three settings that \<^verbatim>\<open>validate\<close> reads; \<open>None\<close> is \<^verbatim>\<open>undefined\<close> (the key is
  missing), for which every comparison is false.
\<close>

record monitoring_settings =
  cm_intervalMinutes :: "rat option"
  cm_alertThreshold :: "rat option"
  cm_emergencyThreshold :: "rat option"

datatype config_file = NoFile | Unparsable | Parsed monitoring_settings

definition getDefaultConfig :: monitoring_settings where
  "getDefaultConfig =
     \<lparr> cm_intervalMinutes = Some 5, cm_alertThreshold = Some 80,
       cm_emergencyThreshold = Some 95 \<rparr>"

text \<open>\<^verbatim>\<open>_loadConfig\<close>: the defaults when the file is missing or cannot be parsed.\<close>

definition loadConfig :: "config_file \<Rightarrow> monitoring_settings" where
  "loadConfig file =
     (case file of
        NoFile \<Rightarrow> getDefaultConfig
      | Unparsable \<Rightarrow> getDefaultConfig
      | Parsed c \<Rightarrow> c)"

text \<open>The constructor: the manager's configuration is whatever \<^verbatim>\<open>_loadConfig\<close> returns.\<close>

definition ConfigManager :: "config_file \<Rightarrow> monitoring_settings" where
  "ConfigManager file = loadConfig file"

definition jsLess :: "rat option \<Rightarrow> rat option \<Rightarrow> bool" where
  "jsLess a b = (case a of None \<Rightarrow> False
                 | Some x \<Rightarrow> (case b of None \<Rightarrow> False | Some y \<Rightarrow> x < y))"

definition jsLessEq :: "rat option \<Rightarrow> rat option \<Rightarrow> bool" where
  "jsLessEq a b = (case a of None \<Rightarrow> False
                   | Some x \<Rightarrow> (case b of None \<Rightarrow> False | Some y \<Rightarrow> x \<le> y))"

record validation =
  valid :: bool
  errors :: "string list"

text \<open>\<^verbatim>\<open>validate\<close>: collects messages and returns them; it does not throw.\<close>

definition validate :: "monitoring_settings \<Rightarrow> validation" where
  "validate c =
     (let alert = cm_alertThreshold c;
          emergency = cm_emergencyThreshold c;
          e1 = (if jsLess alert (Some 0) \<or> jsLess (Some 100) alert
                then [''alertThreshold must be between 0 and 100''] else []);
          e2 = e1 @ (if jsLess emergency (Some 0) \<or> jsLess (Some 100) emergency
                then [''emergencyThreshold must be between 0 and 100''] else []);
          e3 = e2 @ (if jsLessEq emergency alert
                then [''emergencyThreshold must be greater than alertThreshold''] else []);
          e4 = e3 @ (if jsLessEq (cm_intervalMinutes c) (Some 0)
                then [''intervalMinutes must be positive''] else [])
      in \<lparr> valid = (length e4 = 0), errors = e4 \<rparr>)"

subsection \<open>The Watcher: timer and scans\<close>

text \<open>
  The Watcher object together with the part of the runtime it talks to: the interval
  timers that are active, and the number of \<^verbatim>\<open>_performCheck\<close> calls that have started and
  not yet completed (the call is asynchronous and nobody awaits it).
\<close>

record watcher_state =
  isRunning :: bool
  intervalId :: "nat option"
  checkCount :: nat
  activeTimers :: "nat list"
  nextTimerId :: nat
  inFlight :: nat

definition initialWatcher :: watcher_state where
  "initialWatcher =
     \<lparr> isRunning = False, intervalId = None, checkCount = 0, activeTimers = [],
       nextTimerId = 0, inFlight = 0 \<rparr>"

text \<open>A call of \<^verbatim>\<open>_performCheck()\<close>: the counter is incremented and a scan is in flight.\<close>

definition beginCheck :: "watcher_state \<Rightarrow> watcher_state" where
  "beginCheck w = w\<lparr> checkCount := checkCount w + 1, inFlight := inFlight w + 1 \<rparr>"

text \<open>\<^verbatim>\<open>start\<close>: the initial check, then \<^verbatim>\<open>setInterval\<close>.\<close>

definition start :: "watcher_config \<Rightarrow> watcher_state \<Rightarrow> watcher_state" where
  "start wcfg w =
     (if isRunning w then w
      else if \<not> w_enabled wcfg then w
      else
        let w1 = beginCheck (w\<lparr> isRunning := True \<rparr>);
            t = nextTimerId w1
        in w1\<lparr> intervalId := Some t, activeTimers := t # activeTimers w1,
               nextTimerId := t + 1 \<rparr>)"

text \<open>\<^verbatim>\<open>stop\<close>: \<^verbatim>\<open>clearInterval\<close>.\<close>

definition stop :: "watcher_state \<Rightarrow> watcher_state" where
  "stop w =
     (if \<not> isRunning w then w
      else
        let w1 = (case intervalId w of
                    Some t \<Rightarrow> w\<lparr> activeTimers := removeAll t (activeTimers w),
                                  intervalId := None \<rparr>
                  | None \<Rightarrow> w)
        in w1\<lparr> isRunning := False \<rparr>)"

text \<open>
  What can happen next: a call of \<^verbatim>\<open>start\<close> or \<^verbatim>\<open>stop\<close>, an active interval timer firing
  (its callback calls \<^verbatim>\<open>_performCheck\<close>), or a scan in flight running to completion.
  An event that cannot happen in a state has no successor.
\<close>

datatype watcher_event = Start | Stop | TimerFires nat | CheckCompletes

fun step :: "watcher_config \<Rightarrow> watcher_state \<Rightarrow> watcher_event \<Rightarrow> watcher_state option" where
  "step wcfg w Start = Some (start wcfg w)"
| "step wcfg w Stop = Some (stop w)"
| "step wcfg w (TimerFires t) =
     (if t \<in> set (activeTimers w) then Some (beginCheck w) else None)"
| "step wcfg w CheckCompletes =
     (if inFlight w > 0 then Some (w\<lparr> inFlight := inFlight w - 1 \<rparr>) else None)"

fun run :: "watcher_config \<Rightarrow> watcher_state \<Rightarrow> watcher_event list \<Rightarrow> watcher_state option" where
  "run wcfg w [] = Some w"
| "run wcfg w (e # es) =
     (case step wcfg w e of None \<Rightarrow> None | Some w' \<Rightarrow> run wcfg w' es)"

subsection \<open>Session content: parsed JSON\<close>

datatype json =
    JNull
  | JBool bool
  | JNum rat
  | JStr string
  | JArr "json list"
  | JObj "(string \<times> json) list"

datatype js_error = TypeError | SyntaxError

fun truthy :: "json \<Rightarrow> bool" where
  "truthy JNull = False"
| "truthy (JBool b) = b"
| "truthy (JNum n) = (n \<noteq> 0)"
| "truthy (JStr s) = (s \<noteq> [])"
| "truthy (JArr xs) = True"
| "truthy (JObj kvs) = True"

text \<open>
  Reading a property: \<^verbatim>\<open>null\<close> throws, an object gives the value of the key or
  \<^verbatim>\<open>undefined\<close> (\<open>None\<close>), and the other values have none of the properties read here.
\<close>

fun getProp :: "json \<Rightarrow> string \<Rightarrow> js_error + json option" where
  "getProp JNull k = Inl TypeError"
| "getProp (JObj kvs) k = Inr (map_of kvs k)"
| "getProp v k = Inr None"

subsection \<open>The Monitor: \<^verbatim>\<open>countSessionTokens\<close>\<close>

text \<open>
  A file as the Monitor sees it: the value \<^verbatim>\<open>JSON.parse\<close> returns for its content
  (\<open>None\<close> when reading or parsing throws) and the size \<^verbatim>\<open>stat\<close> reports (\<open>None\<close> when
  \<^verbatim>\<open>stat\<close> throws). \<^verbatim>\<open>JSON.stringify\<close> is a parameter of the model.
\<close>

record raw_file =
  rf_parsed :: "json option"
  rf_size :: "nat option"

text \<open>The characters one property of a message adds: nothing unless the value is truthy.\<close>

definition contentChars :: "(json \<Rightarrow> string) \<Rightarrow> json option \<Rightarrow> nat" where
  "contentChars stringify v =
     (case v of
        None \<Rightarrow> 0
      | Some c \<Rightarrow>
          if truthy c
          then (case c of JStr s \<Rightarrow> length s | _ \<Rightarrow> length (stringify c))
          else 0)"

definition toolChars :: "(json \<Rightarrow> string) \<Rightarrow> json option \<Rightarrow> nat" where
  "toolChars stringify v =
     (case v of
        None \<Rightarrow> 0
      | Some c \<Rightarrow> if truthy c then length (stringify c) else 0)"

definition messageChars :: "(json \<Rightarrow> string) \<Rightarrow> json \<Rightarrow> js_error + nat" where
  "messageChars stringify message =
     (case getProp message ''content'' of
        Inl e \<Rightarrow> Inl e
      | Inr content \<Rightarrow>
          (case getProp message ''tool_calls'' of
             Inl e \<Rightarrow> Inl e
           | Inr tool_calls \<Rightarrow>
               (case getProp message ''tool_results'' of
                  Inl e \<Rightarrow> Inl e
                | Inr tool_results \<Rightarrow>
                    Inr (contentChars stringify content + toolChars stringify tool_calls
                         + toolChars stringify tool_results))))"

fun countChars :: "(json \<Rightarrow> string) \<Rightarrow> nat \<Rightarrow> json list \<Rightarrow> js_error + nat" where
  "countChars stringify totalChars [] = Inr totalChars"
| "countChars stringify totalChars (message # rest) =
     (case messageChars stringify message of
        Inl e \<Rightarrow> Inl e
      | Inr n \<Rightarrow> countChars stringify (totalChars + n) rest)"

text \<open>\<^verbatim>\<open>Math.ceil(n / 4)\<close>.\<close>

definition ceilQuarter :: "nat \<Rightarrow> nat" where
  "ceilQuarter n = nat \<lceil>(of_nat n :: rat) / 4\<rceil>"

text \<open>The body of the \<^verbatim>\<open>try\<close> block: the total number of characters, or the exception.\<close>

definition totalChars :: "(json \<Rightarrow> string) \<Rightarrow> raw_file \<Rightarrow> js_error + nat" where
  "totalChars stringify f =
     (case rf_parsed f of
        None \<Rightarrow> Inl SyntaxError
      | Some session \<Rightarrow>
          (case getProp session ''messages'' of
             Inl e \<Rightarrow> Inl e
           | Inr (Some (JArr messages)) \<Rightarrow> countChars stringify 0 messages
           | Inr other \<Rightarrow> Inr 0))"

definition countSessionTokens :: "(json \<Rightarrow> string) \<Rightarrow> raw_file \<Rightarrow> nat" where
  "countSessionTokens stringify f =
     (case totalChars stringify f of
        Inr n \<Rightarrow> ceilQuarter n
      | Inl e \<Rightarrow> (case rf_size f of Some sz \<Rightarrow> ceilQuarter sz | None \<Rightarrow> 0))"

text \<open>
  The estimate as the specification words it: for content that parses, the character
  lengths of all message content, tool-call and tool-result payloads, divided by 4 and
  rounded up; for content that does not parse, the file size divided by 4 and rounded up.
\<close>

definition spec_field :: "json \<Rightarrow> string \<Rightarrow> json option" where
  "spec_field v k = (case v of JObj kvs \<Rightarrow> map_of kvs k | _ \<Rightarrow> None)"

definition spec_payloadChars :: "(json \<Rightarrow> string) \<Rightarrow> json option \<Rightarrow> nat" where
  "spec_payloadChars stringify v =
     (case v of
        None \<Rightarrow> 0
      | Some (JStr s) \<Rightarrow> length s
      | Some c \<Rightarrow> length (stringify c))"

definition spec_messages :: "json \<Rightarrow> json list" where
  "spec_messages session =
     (case spec_field session ''messages'' of Some (JArr ms) \<Rightarrow> ms | _ \<Rightarrow> [])"

definition spec_messageChars :: "(json \<Rightarrow> string) \<Rightarrow> json \<Rightarrow> nat" where
  "spec_messageChars stringify m =
     spec_payloadChars stringify (spec_field m ''content'')
     + spec_payloadChars stringify (spec_field m ''tool_calls'')
     + spec_payloadChars stringify (spec_field m ''tool_results'')"

definition spec_estimatedCost :: "(json \<Rightarrow> string) \<Rightarrow> raw_file \<Rightarrow> nat" where
  "spec_estimatedCost stringify f =
     (case rf_parsed f of
        Some session \<Rightarrow>
          ceilQuarter (sum_list (map (spec_messageChars stringify) (spec_messages session)))
      | None \<Rightarrow> ceilQuarter (case rf_size f of Some sz \<Rightarrow> sz | None \<Rightarrow> 0))"

text \<open>
  The content on which the traversal of \<^verbatim>\<open>countSessionTokens\<close> raises nothing: the parsed
  value is not \<^verbatim>\<open>null\<close> and no element of its message array is.
\<close>

definition traversable :: "raw_file \<Rightarrow> bool" where
  "traversable f =
     (case rf_parsed f of
        None \<Rightarrow> False
      | Some session \<Rightarrow> session \<noteq> JNull \<and> JNull \<notin> set (spec_messages session))"

text \<open>
  The measure of the amended estimate, stated by cases on the payload and without the
  functions of the code model. The content of a message counts its own length when it is
  a string and the length of its serialization otherwise; tool calls and tool results
  always count the length of their serialization, also when they are strings. A payload
  that is absent, \<^verbatim>\<open>null\<close>, \<^verbatim>\<open>false\<close>, the number 0 or the empty string counts
  nothing.
\<close>

fun amended_contentChars :: "(json \<Rightarrow> string) \<Rightarrow> json option \<Rightarrow> nat" where
  "amended_contentChars stringify None = 0"
| "amended_contentChars stringify (Some JNull) = 0"
| "amended_contentChars stringify (Some (JBool b)) =
     (if b then length (stringify (JBool b)) else 0)"
| "amended_contentChars stringify (Some (JNum n)) =
     (if n = 0 then 0 else length (stringify (JNum n)))"
| "amended_contentChars stringify (Some (JStr s)) = length s"
| "amended_contentChars stringify (Some (JArr xs)) = length (stringify (JArr xs))"
| "amended_contentChars stringify (Some (JObj kvs)) = length (stringify (JObj kvs))"

fun amended_toolChars :: "(json \<Rightarrow> string) \<Rightarrow> json option \<Rightarrow> nat" where
  "amended_toolChars stringify None = 0"
| "amended_toolChars stringify (Some JNull) = 0"
| "amended_toolChars stringify (Some (JBool b)) =
     (if b then length (stringify (JBool b)) else 0)"
| "amended_toolChars stringify (Some (JNum n)) =
     (if n = 0 then 0 else length (stringify (JNum n)))"
| "amended_toolChars stringify (Some (JStr s)) =
     (if s = [] then 0 else length (stringify (JStr s)))"
| "amended_toolChars stringify (Some (JArr xs)) = length (stringify (JArr xs))"
| "amended_toolChars stringify (Some (JObj kvs)) = length (stringify (JObj kvs))"

definition amended_messageChars :: "(json \<Rightarrow> string) \<Rightarrow> json \<Rightarrow> nat" where
  "amended_messageChars stringify m =
     amended_contentChars stringify (spec_field m ''content'')
     + amended_toolChars stringify (spec_field m ''tool_calls'')
     + amended_toolChars stringify (spec_field m ''tool_results'')"

subsection \<open>The Analyzer: error rate and importance score\<close>

text \<open>\<^verbatim>\<open>toLowerCase\<close> on the ASCII letters; the other characters are left as they are.\<close>

definition toLowerChar :: "char \<Rightarrow> char" where
  "toLowerChar c =
     (case map_of (zip ''ABCDEFGHIJKLMNOPQRSTUVWXYZ'' ''abcdefghijklmnopqrstuvwxyz'') c of
        Some l \<Rightarrow> l
      | None \<Rightarrow> c)"

definition toLowerCase :: "string \<Rightarrow> string" where
  "toLowerCase s = map toLowerChar s"

text \<open>\<^verbatim>\<open>String.prototype.includes\<close>.\<close>

fun strIncludes :: "string \<Rightarrow> string \<Rightarrow> bool" where
  "strIncludes [] sub = (sub = [])"
| "strIncludes (c # cs) sub = (take (length sub) (c # cs) = sub \<or> strIncludes cs sub)"

text \<open>
  The text of a message: the content when it is a string, else its serialization. For a
  missing content \<^verbatim>\<open>JSON.stringify\<close> returns \<^verbatim>\<open>undefined\<close> and \<^verbatim>\<open>toLowerCase\<close> throws.
\<close>

definition contentText :: "(json \<Rightarrow> string) \<Rightarrow> json \<Rightarrow> js_error + string" where
  "contentText stringify message =
     (case getProp message ''content'' of
        Inl e \<Rightarrow> Inl e
      | Inr None \<Rightarrow> Inl TypeError
      | Inr (Some (JStr s)) \<Rightarrow> Inr s
      | Inr (Some c) \<Rightarrow> Inr (stringify c))"

text \<open>The inner loop over \<^verbatim>\<open>message.tool_results\<close>: \<^verbatim>\<open>result.is_error || result.error\<close>.\<close>

fun countFailedResults :: "nat \<Rightarrow> json list \<Rightarrow> js_error + nat" where
  "countFailedResults errorCount [] = Inr errorCount"
| "countFailedResults errorCount (result # rest) =
     (case getProp result ''is_error'' of
        Inl e \<Rightarrow> Inl e
      | Inr is_error \<Rightarrow>
          if (case is_error of Some v \<Rightarrow> truthy v | None \<Rightarrow> False)
          then countFailedResults (errorCount + 1) rest
          else (case getProp result ''error'' of
                  Inl e \<Rightarrow> Inl e
                | Inr err \<Rightarrow>
                    if (case err of Some v \<Rightarrow> truthy v | None \<Rightarrow> False)
                    then countFailedResults (errorCount + 1) rest
                    else countFailedResults errorCount rest))"

text \<open>
  One round of the outer loop: the text test adds one, every failed tool result adds one.
  A truthy \<^verbatim>\<open>tool_results\<close> that is a string is iterated character by character (no
  character has the properties); any other value that is not an array is not iterable.
\<close>

definition messageErrors :: "(json \<Rightarrow> string) \<Rightarrow> nat \<Rightarrow> json \<Rightarrow> js_error + nat" where
  "messageErrors stringify errorCount message =
     (case contentText stringify message of
        Inl e \<Rightarrow> Inl e
      | Inr text \<Rightarrow>
          let lower = toLowerCase text;
              errorCount1 =
                (if strIncludes lower ''error:'' \<or> strIncludes lower ''failed'' \<or>
                    strIncludes lower ''exception''
                 then errorCount + 1 else errorCount)
          in (case getProp message ''tool_results'' of
                Inl e \<Rightarrow> Inl e
              | Inr None \<Rightarrow> Inr errorCount1
              | Inr (Some results) \<Rightarrow>
                  if \<not> truthy results then Inr errorCount1
                  else (case results of
                          JArr rs \<Rightarrow> countFailedResults errorCount1 rs
                        | JStr s \<Rightarrow> Inr errorCount1
                        | _ \<Rightarrow> Inl TypeError)))"

fun errorLoop :: "(json \<Rightarrow> string) \<Rightarrow> nat \<Rightarrow> json list \<Rightarrow> js_error + nat" where
  "errorLoop stringify errorCount [] = Inr errorCount"
| "errorLoop stringify errorCount (message # rest) =
     (case messageErrors stringify errorCount message of
        Inl e \<Rightarrow> Inl e
      | Inr n \<Rightarrow> errorLoop stringify n rest)"

text \<open>
  \<^verbatim>\<open>_calculateErrorRate\<close>: the error count divided by the number of messages. A missing,
  falsy or empty message list gives 0; a truthy value that is not an array cannot be
  iterated with messages that have a content.
\<close>

definition calculateErrorRate :: "(json \<Rightarrow> string) \<Rightarrow> json \<Rightarrow> js_error + rat" where
  "calculateErrorRate stringify sessionData =
     (case getProp sessionData ''messages'' of
        Inl e \<Rightarrow> Inl e
      | Inr None \<Rightarrow> Inr 0
      | Inr (Some messages) \<Rightarrow>
          if \<not> truthy messages then Inr 0
          else (case messages of
                  JArr ms \<Rightarrow>
                    if length ms = 0 then Inr 0
                    else (case errorLoop stringify 0 ms of
                            Inl e \<Rightarrow> Inl e
                          | Inr errorCount \<Rightarrow> Inr (of_nat errorCount / of_nat (length ms)))
                | JObj kvs \<Rightarrow>
                    if map_of kvs ''length'' = Some (JNum 0) then Inr 0 else Inl TypeError
                | _ \<Rightarrow> Inl TypeError))"

record analyzer_config =
  toolUsageWeight :: rat
  conversationDepthWeight :: rat
  recencyWeight :: rat
  engagementWeight :: rat

definition default_analyzer_config :: analyzer_config where
  "default_analyzer_config =
     \<lparr> toolUsageWeight = 3 / 10, conversationDepthWeight = 25 / 100,
       recencyWeight = 25 / 100, engagementWeight = 2 / 10 \<rparr>"

record factors =
  recency :: rat
  engagement :: rat
  toolUsage :: rat
  conversationDepth :: rat
  complexity :: rat
  errorRate :: rat
  uniqueness :: rat

text \<open>\<^verbatim>\<open>_calculateImportanceScore\<close>: the weighted sum, the error penalty, the clamp.\<close>

definition calculateImportanceScore :: "analyzer_config \<Rightarrow> factors \<Rightarrow> rat" where
  "calculateImportanceScore acfg fs =
     (let score0 = recency fs * recencyWeight acfg
                   + engagement fs * engagementWeight acfg
                   + toolUsage fs * toolUsageWeight acfg
                   + conversationDepth fs * conversationDepthWeight acfg
                   + complexity fs * (15 / 100)
                   + uniqueness fs * (1 / 10);
          score = score0 * (1 - errorRate fs * (1 / 2))
      in min 100 (max 0 score))"

text \<open>
  The rest of the \<^verbatim>\<open>try\<close> block of \<^verbatim>\<open>analyzeSession\<close>. Every factor computation and the
  assembly of the details run inside it, and any exception makes the handler report the
  score 0. For the factors other than the error rate the model follows what each function
  reads, in the order of the source, and returns the exception it raises or \<open>()\<close> when it
  returns; the number it returns is the corresponding field of the factors given to
  \<open>analyzeSessionScore\<close>.
\<close>

definition truthyOpt :: "json option \<Rightarrow> bool" where
  "truthyOpt v = (case v of None \<Rightarrow> False | Some j \<Rightarrow> truthy j)"

text \<open>\<^verbatim>\<open>v.length === 0\<close> for a truthy value \<open>v\<close>.\<close>

definition lengthIsZero :: "json \<Rightarrow> bool" where
  "lengthIsZero v =
     (case v of
        JArr xs \<Rightarrow> xs = []
      | JStr s \<Rightarrow> s = []
      | JObj kvs \<Rightarrow> map_of kvs ''length'' = Some (JNum 0)
      | _ \<Rightarrow> False)"

text \<open>
  \<^verbatim>\<open>for (const x of v)\<close>: an array gives its elements, a string its characters (as strings);
  nothing else that JSON can hold is iterable.
\<close>

definition iterate :: "json option \<Rightarrow> js_error + json list" where
  "iterate v =
     (case v of
        Some (JArr xs) \<Rightarrow> Inr xs
      | Some (JStr s) \<Rightarrow> Inr (map (\<lambda>c. JStr [c]) s)
      | _ \<Rightarrow> Inl TypeError)"

fun forEach :: "(json \<Rightarrow> js_error + unit) \<Rightarrow> json list \<Rightarrow> js_error + unit" where
  "forEach body [] = Inr ()"
| "forEach body (x # xs) = (case body x of Inl e \<Rightarrow> Inl e | Inr u \<Rightarrow> forEach body xs)"

definition andThen :: "js_error + unit \<Rightarrow> js_error + 'a \<Rightarrow> js_error + 'a" where
  "andThen first second = (case first of Inl e \<Rightarrow> Inl e | Inr u \<Rightarrow> second)"

text \<open>The reads of a loop body: \<^verbatim>\<open>m.role\<close>, the text of a message, \<^verbatim>\<open>message.tool_calls\<close>.\<close>

definition readRole :: "json \<Rightarrow> js_error + unit" where
  "readRole m = (case getProp m ''role'' of Inl e \<Rightarrow> Inl e | Inr r \<Rightarrow> Inr ())"

definition readText :: "(json \<Rightarrow> string) \<Rightarrow> json \<Rightarrow> js_error + unit" where
  "readText stringify message =
     (case contentText stringify message of Inl e \<Rightarrow> Inl e | Inr t \<Rightarrow> Inr ())"

definition readToolCalls :: "json \<Rightarrow> js_error + unit" where
  "readToolCalls message =
     (case getProp message ''tool_calls'' of Inl e \<Rightarrow> Inl e | Inr tc \<Rightarrow> Inr ())"

text \<open>
  \<^verbatim>\<open>call.function?.name\<close>: reading \<^verbatim>\<open>function\<close> throws on a \<^verbatim>\<open>null\<close> call; the optional
  chaining and the read of \<^verbatim>\<open>name\<close> never throw.
\<close>

definition readFunctionName :: "json \<Rightarrow> js_error + unit" where
  "readFunctionName call =
     (case getProp call ''function'' of Inl e \<Rightarrow> Inl e | Inr fn \<Rightarrow> Inr ())"

text \<open>
  The loop body shared by \<^verbatim>\<open>_calculateToolUsageScore\<close> and \<^verbatim>\<open>_calculateUniquenessScore\<close>:
  a truthy \<^verbatim>\<open>message.tool_calls\<close> is iterated and the name of every call is read.
\<close>

definition scanToolCalls :: "json \<Rightarrow> js_error + unit" where
  "scanToolCalls message =
     (case getProp message ''tool_calls'' of
        Inl e \<Rightarrow> Inl e
      | Inr tc \<Rightarrow>
          if \<not> truthyOpt tc then Inr ()
          else (case iterate tc of
                  Inl e \<Rightarrow> Inl e
                | Inr calls \<Rightarrow> forEach readFunctionName calls))"

text \<open>
  \<^verbatim>\<open>_calculateEngagementScore\<close>: 0 for a missing, falsy or empty message list; otherwise
  \<^verbatim>\<open>messages.filter\<close> is called twice, which only an array has, and each callback reads
  \<^verbatim>\<open>m.role\<close>.
\<close>

definition engagementOutcome :: "json \<Rightarrow> js_error + unit" where
  "engagementOutcome sessionData =
     (case getProp sessionData ''messages'' of
        Inl e \<Rightarrow> Inl e
      | Inr None \<Rightarrow> Inr ()
      | Inr (Some messages) \<Rightarrow>
          if \<not> truthy messages \<or> lengthIsZero messages then Inr ()
          else (case messages of
                  JArr ms \<Rightarrow> andThen (forEach readRole ms) (forEach readRole ms)
                | _ \<Rightarrow> Inl TypeError))"

text \<open>\<^verbatim>\<open>_calculateToolUsageScore\<close>: 0 for a missing or falsy message list, else the loop.\<close>

definition toolUsageOutcome :: "json \<Rightarrow> js_error + unit" where
  "toolUsageOutcome sessionData =
     (case getProp sessionData ''messages'' of
        Inl e \<Rightarrow> Inl e
      | Inr messages \<Rightarrow>
          if \<not> truthyOpt messages then Inr ()
          else (case iterate messages of
                  Inl e \<Rightarrow> Inl e
                | Inr ms \<Rightarrow> forEach scanToolCalls ms))"

text \<open>
  \<^verbatim>\<open>_calculateConversationDepth\<close>: two loops over the messages, each taking the text of
  every message.
\<close>

definition conversationDepthOutcome :: "(json \<Rightarrow> string) \<Rightarrow> json \<Rightarrow> js_error + unit" where
  "conversationDepthOutcome stringify sessionData =
     (case getProp sessionData ''messages'' of
        Inl e \<Rightarrow> Inl e
      | Inr None \<Rightarrow> Inr ()
      | Inr (Some messages) \<Rightarrow>
          if \<not> truthy messages \<or> lengthIsZero messages then Inr ()
          else (case iterate (Some messages) of
                  Inl e \<Rightarrow> Inl e
                | Inr ms \<Rightarrow>
                    andThen (forEach (readText stringify) ms)
                      (forEach (readText stringify) ms)))"

text \<open>\<^verbatim>\<open>_countToolCalls\<close>: every message is asked for its \<^verbatim>\<open>tool_calls\<close>.\<close>

definition countToolCallsOutcome :: "json \<Rightarrow> js_error + unit" where
  "countToolCallsOutcome sessionData =
     (case getProp sessionData ''messages'' of
        Inl e \<Rightarrow> Inl e
      | Inr messages \<Rightarrow>
          if \<not> truthyOpt messages then Inr ()
          else (case iterate messages of
                  Inl e \<Rightarrow> Inl e
                | Inr ms \<Rightarrow> forEach readToolCalls ms))"

text \<open>\<^verbatim>\<open>_calculateAvgMessageLength\<close>: the text of every message.\<close>

definition avgMessageLengthOutcome :: "(json \<Rightarrow> string) \<Rightarrow> json \<Rightarrow> js_error + unit" where
  "avgMessageLengthOutcome stringify sessionData =
     (case getProp sessionData ''messages'' of
        Inl e \<Rightarrow> Inl e
      | Inr None \<Rightarrow> Inr ()
      | Inr (Some messages) \<Rightarrow>
          if \<not> truthy messages \<or> lengthIsZero messages then Inr ()
          else (case iterate (Some messages) of
                  Inl e \<Rightarrow> Inl e
                | Inr ms \<Rightarrow> forEach (readText stringify) ms))"

text \<open>
  The two loops of \<^verbatim>\<open>_calculateComplexityScore\<close> that stop at the first match: the search
  for code and the search for debugging language.
\<close>

fun codeLoop :: "(json \<Rightarrow> string) \<Rightarrow> json list \<Rightarrow> js_error + unit" where
  "codeLoop stringify [] = Inr ()"
| "codeLoop stringify (message # rest) =
     (case contentText stringify message of
        Inl e \<Rightarrow> Inl e
      | Inr t \<Rightarrow>
          if strIncludes t ''```'' \<or> strIncludes t ''function'' \<or> strIncludes t ''class''
          then Inr ()
          else codeLoop stringify rest)"

fun debugLoop :: "(json \<Rightarrow> string) \<Rightarrow> json list \<Rightarrow> js_error + unit" where
  "debugLoop stringify [] = Inr ()"
| "debugLoop stringify (message # rest) =
     (case contentText stringify message of
        Inl e \<Rightarrow> Inl e
      | Inr t \<Rightarrow>
          if strIncludes (toLowerCase t) ''error'' \<or> strIncludes (toLowerCase t) ''debug'' \<or>
             strIncludes (toLowerCase t) ''fix''
          then Inr ()
          else debugLoop stringify rest)"

text \<open>
  \<^verbatim>\<open>_calculateComplexityScore\<close>: the search for code, \<^verbatim>\<open>_countToolCalls\<close>,
  \<^verbatim>\<open>_calculateAvgMessageLength\<close>, the search for debugging language.
\<close>

definition complexityOutcome :: "(json \<Rightarrow> string) \<Rightarrow> json \<Rightarrow> js_error + unit" where
  "complexityOutcome stringify sessionData =
     (case getProp sessionData ''messages'' of
        Inl e \<Rightarrow> Inl e
      | Inr None \<Rightarrow> Inr ()
      | Inr (Some messages) \<Rightarrow>
          if \<not> truthy messages \<or> lengthIsZero messages then Inr ()
          else (case iterate (Some messages) of
                  Inl e \<Rightarrow> Inl e
                | Inr ms \<Rightarrow>
                    andThen (codeLoop stringify ms)
                      (andThen (countToolCallsOutcome sessionData)
                         (andThen (avgMessageLengthOutcome stringify sessionData)
                            (debugLoop stringify ms)))))"

text \<open>\<^verbatim>\<open>_calculateUniquenessScore\<close>: the loop over the tool calls when there are messages.\<close>

definition uniquenessOutcome :: "json \<Rightarrow> js_error + unit" where
  "uniquenessOutcome sessionData =
     (case getProp sessionData ''messages'' of
        Inl e \<Rightarrow> Inl e
      | Inr messages \<Rightarrow>
          if \<not> truthyOpt messages then Inr ()
          else (case iterate messages of
                  Inl e \<Rightarrow> Inl e
                | Inr ms \<Rightarrow> forEach scanToolCalls ms))"

text \<open>\<^verbatim>\<open>_detectConversationThreads\<close>: the role of every message.\<close>

definition conversationThreadsOutcome :: "json \<Rightarrow> js_error + unit" where
  "conversationThreadsOutcome sessionData =
     (case getProp sessionData ''messages'' of
        Inl e \<Rightarrow> Inl e
      | Inr messages \<Rightarrow>
          if \<not> truthyOpt messages then Inr ()
          else (case iterate messages of
                  Inl e \<Rightarrow> Inl e
                | Inr ms \<Rightarrow> forEach readRole ms))"

text \<open>
  The details: \<^verbatim>\<open>sessionData.messages.length\<close> throws when the message list is missing or
  \<^verbatim>\<open>null\<close>; then \<^verbatim>\<open>_countToolCalls\<close>, \<^verbatim>\<open>_calculateAvgMessageLength\<close> and
  \<^verbatim>\<open>_detectConversationThreads\<close>.
\<close>

definition detailsOutcome :: "(json \<Rightarrow> string) \<Rightarrow> json \<Rightarrow> js_error + unit" where
  "detailsOutcome stringify sessionData =
     (case getProp sessionData ''messages'' of
        Inl e \<Rightarrow> Inl e
      | Inr None \<Rightarrow> Inl TypeError
      | Inr (Some JNull) \<Rightarrow> Inl TypeError
      | Inr (Some messages) \<Rightarrow>
          andThen (countToolCallsOutcome sessionData)
            (andThen (avgMessageLengthOutcome stringify sessionData)
               (conversationThreadsOutcome sessionData)))"

text \<open>
  The \<^verbatim>\<open>try\<close> block in the order of the source: engagement, tool usage, conversation
  depth, complexity, error rate, uniqueness, then (after the score, the classification and
  the recommendation, which cannot throw) the details. The result is the error rate, or
  the first exception.
\<close>

definition tryBlock :: "(json \<Rightarrow> string) \<Rightarrow> json \<Rightarrow> js_error + rat" where
  "tryBlock stringify sessionData =
     andThen (engagementOutcome sessionData)
       (andThen (toolUsageOutcome sessionData)
          (andThen (conversationDepthOutcome stringify sessionData)
             (andThen (complexityOutcome stringify sessionData)
                (case calculateErrorRate stringify sessionData of
                   Inl e \<Rightarrow> Inl e
                 | Inr r \<Rightarrow>
                     andThen (uniquenessOutcome sessionData)
                       (andThen (detailsOutcome stringify sessionData) (Inr r))))))"

text \<open>
  The importance score that \<^verbatim>\<open>analyzeSession\<close> reports for parsed session data, the values
  of the other factors being given: when anything in the \<^verbatim>\<open>try\<close> block throws, the
  handler reports the score 0. (The cache only returns an analysis computed this way.)
\<close>

definition analyzeSessionScore ::
  "(json \<Rightarrow> string) \<Rightarrow> analyzer_config \<Rightarrow> factors \<Rightarrow> json \<Rightarrow> rat" where
  "analyzeSessionScore stringify acfg others sessionData =
     (case tryBlock stringify sessionData of
        Inl e \<Rightarrow> 0
      | Inr r \<Rightarrow> calculateImportanceScore acfg (others\<lparr> errorRate := r \<rparr>))"

subsection \<open>Concrete inputs\<close>

text \<open>The inputs on which the theorems below are evaluated.\<close>

definition exampleNow :: int where
  "exampleNow = 1000000000"

definition sessionFile :: "string \<Rightarrow> nat \<Rightarrow> nat \<Rightarrow> int \<Rightarrow> session_file" where
  "sessionFile i t m a =
     \<lparr> fileId = i, fileTokens = t, fileMessages = m, mtime = a, deletable = True \<rparr>"

definition emptyArchive :: archiver_state where
  "emptyArchive = \<lparr> bundles = [], archiveIndex = [], tarOk = True, indexWritable = True \<rparr>"

text \<open>
  Four sessions of 42500 tokens and one message each, last active 2, 3, 4 and 5 days
  before \<open>exampleNow\<close>: 85% of the default budget of 200000.
\<close>

definition fourOldSessions :: "session_file list" where
  "fourOldSessions =
     [sessionFile ''a'' 42500 1 827200000, sessionFile ''b'' 42500 1 740800000,
      sessionFile ''c'' 42500 1 654400000, sessionFile ''d'' 42500 1 568000000]"

text \<open>
  Five sessions of 40000 tokens, each last active a little more than ten hours before
  \<open>exampleNow\<close>: 100% of the default budget, and all older than the 6 hour window.
\<close>

definition fiveStaleSessions :: "session_file list" where
  "fiveStaleSessions =
     [sessionFile ''s1'' 40000 3 964000000, sessionFile ''s2'' 40000 3 963000000,
      sessionFile ''s3'' 40000 3 962000000, sessionFile ''s4'' 40000 3 961000000,
      sessionFile ''s5'' 40000 3 960000000]"

definition plainSession :: "string \<Rightarrow> nat \<Rightarrow> int \<Rightarrow> session" where
  "plainSession i m a =
     \<lparr> sessionId = i, path = i @ ''.json'', tokenCount = 100, messageCount = m,
       lastActive = a, priority = Low, pruneScore = None \<rparr>"

text \<open>Ten sessions with one message each, last active ten days before \<open>exampleNow\<close>.\<close>

definition tenSessions :: "session list" where
  "tenSessions =
     map (\<lambda>i. plainSession i 1 136000000)
       [''t0'', ''t1'', ''t2'', ''t3'', ''t4'', ''t5'', ''t6'', ''t7'', ''t8'', ''t9'']"

text \<open>A session with 15 messages, last active ten days before \<open>exampleNow\<close>.\<close>

definition engagedOldSession :: session where
  "engagedOldSession = plainSession ''busy'' 15 136000000"

text \<open>A session with 15 messages, last active one hour before \<open>exampleNow\<close>.\<close>

definition engagedFreshSession :: session where
  "engagedFreshSession = plainSession ''fresh'' 15 996400000"

definition engagementOff :: pruner_config where
  "engagementOff = default_pruner_config\<lparr> preserveHighEngagement := False \<rparr>"

text \<open>One session with one message, last active exactly seven days before \<open>exampleNow\<close>.\<close>

definition weekOldSession :: "session_file list" where
  "weekOldSession = [sessionFile ''w'' 100 1 395200000]"

text \<open>
  Three sessions: one of eight days, one of nine days that cannot be unlinked, and one of
  an hour.
\<close>

definition mixedStore :: "session_file list" where
  "mixedStore =
     [sessionFile ''old'' 100 1 308800000,
      (sessionFile ''locked'' 100 1 222400000)\<lparr> deletable := False \<rparr>,
      sessionFile ''recent'' 100 1 996400000]"

definition exampleArchives :: "string \<rightharpoonup> archive_object" where
  "exampleArchives =
     [''sessions-2026-01-01.tar.gz'' \<mapsto>
        TarGz (Some [(''temp-2026-01-01'',
                      EDir [(''s1.json'', ''archived one''), (''s2.json'', ''archived two'')])])]"

definition exampleLiveDir :: "string \<rightharpoonup> string" where
  "exampleLiveDir = [''s1.json'' \<mapsto> ''newer one'']"

definition allWritable :: "string \<Rightarrow> bool" where
  "allWritable n = True"

definition invertedThresholds :: monitoring_settings where
  "invertedThresholds =
     \<lparr> cm_intervalMinutes = Some 5, cm_alertThreshold = Some 80,
       cm_emergencyThreshold = Some 50 \<rparr>"

text \<open>
  In the other examples on session content no value is serialized (every payload is a
  string or absent), so the serializer passed to the model is never called.
\<close>

definition noSerializer :: "json \<Rightarrow> string" where
  "noSerializer v = []"

text \<open>
  For the example that serializes payloads: \<^verbatim>\<open>JSON.stringify\<close> on the values built from
  \<^verbatim>\<open>null\<close>, booleans, strings without characters to escape, arrays and objects. Numbers
  are outside this fragment (the example has none) and give the empty string here.
\<close>

fun joinWith :: "string \<Rightarrow> string list \<Rightarrow> string" where
  "joinWith sep [] = []"
| "joinWith sep [x] = x"
| "joinWith sep (x # y # ys) = x @ sep @ joinWith sep (y # ys)"

definition quoted :: "string \<Rightarrow> string" where
  "quoted s = [CHR 0x22] @ s @ [CHR 0x22]"

fun fragmentStringify :: "json \<Rightarrow> string" where
  "fragmentStringify JNull = ''null''"
| "fragmentStringify (JBool b) = (if b then ''true'' else ''false'')"
| "fragmentStringify (JNum n) = []"
| "fragmentStringify (JStr s) = quoted s"
| "fragmentStringify (JArr xs) = ''['' @ joinWith '','' (map fragmentStringify xs) @ '']''"
| "fragmentStringify (JObj kvs) =
     ''{'' @ joinWith '',''
              (map (\<lambda>kv. quoted (fst kv) @ '':'' @ fragmentStringify (snd kv)) kvs) @ ''}''"

text \<open>
  Three messages. The first has the content \<^verbatim>\<open>hello\<close> (5 characters). The second has a
  content that is not a string, \<^verbatim>\<open>[{"type":"text"}]\<close> (17 characters serialized), the
  tool calls \<^verbatim>\<open>[{"name":"ls"}]\<close> (15 characters) and the tool results \<^verbatim>\<open>"abc"\<close>, a string
  (5 characters serialized, with its quotes). The third has an empty content and
  \<^verbatim>\<open>null\<close> tool calls, which count nothing. In all 42 characters.
\<close>

definition toolSession :: json where
  "toolSession =
     JObj [(''messages'',
            JArr [JObj [(''role'', JStr ''user''), (''content'', JStr ''hello'')],
                  JObj [(''role'', JStr ''assistant''),
                        (''content'', JArr [JObj [(''type'', JStr ''text'')]]),
                        (''tool_calls'', JArr [JObj [(''name'', JStr ''ls'')]]),
                        (''tool_results'', JStr ''abc'')],
                  JObj [(''role'', JStr ''user''), (''content'', JStr []),
                        (''tool_calls'', JNull)]])]"

definition toolFile :: raw_file where
  "toolFile = \<lparr> rf_parsed = Some toolSession, rf_size = Some 300 \<rparr>"

text \<open>The file \<^verbatim>\<open>{"messages":[null]}\<close>, 19 bytes.\<close>

definition nullMessageFile :: raw_file where
  "nullMessageFile =
     \<lparr> rf_parsed = Some (JObj [(''messages'', JArr [JNull])]), rf_size = Some 19 \<rparr>"

text \<open>A session of two messages with 5 and 4 characters of content.\<close>

definition twoMessageSession :: json where
  "twoMessageSession =
     JObj [(''messages'',
            JArr [JObj [(''role'', JStr ''user''), (''content'', JStr ''hello'')],
                  JObj [(''role'', JStr ''assistant''), (''content'', JStr ''hi!!'')]])]"

definition twoMessageFile :: raw_file where
  "twoMessageFile = \<lparr> rf_parsed = Some twoMessageSession, rf_size = Some 92 \<rparr>"

definition unparsableFile :: raw_file where
  "unparsableFile = \<lparr> rf_parsed = None, rf_size = Some 10 \<rparr>"

text \<open>
  One message whose text reports an error and whose two tool results both failed:
  three errors for one message.
\<close>

definition noisySession :: json where
  "noisySession =
     JObj [(''messages'',
            JArr [JObj [(''role'', JStr ''assistant''),
                        (''content'', JStr ''Error: request failed''),
                        (''tool_results'',
                           JArr [JObj [(''is_error'', JBool True)],
                                 JObj [(''error'', JStr ''timeout'')]])]])]"

definition someFactors :: factors where
  "someFactors =
     \<lparr> recency = 100, engagement = 5, toolUsage = 0, conversationDepth = 0,
       complexity = 10, errorRate = 0, uniqueness = 50 \<rparr>"

text \<open>The invariant of the Watcher's timer.\<close>

definition timerInv :: "watcher_state \<Rightarrow> bool" where
  "timerInv w =
     (activeTimers w = (case intervalId w of Some t \<Rightarrow> [t] | None \<Rightarrow> []) \<and>
      (isRunning w \<longleftrightarrow> intervalId w \<noteq> None))"

section \<open>Properties\<close>

subsection \<open>Evaluation of rounding on rational numerals\<close>

lemma floor_rat_numeral [simp]:
  "\<lfloor>(numeral a / numeral b :: rat)\<rfloor> = numeral a div numeral b"
  using floor_divide_of_int_eq [of "numeral a" "numeral b", where ?'a = rat] by simp

lemma ceiling_rat_numeral [simp]:
  "\<lceil>(numeral a / numeral b :: rat)\<rceil> = - (- numeral a div numeral b)"
  using ceiling_divide_eq_div [of "numeral a" "numeral b", where ?'a = rat] by simp

lemmas monitor_defs =
  getContextUsage_def default_monitor_config_def sessionFile_def sessionInfo_def
  sessionFilePath_def calculatePriority_def getStatus_def mathRound_def

lemmas pruner_defs =
  prune_def selectPruneTargets_def isProtected_def default_pruner_config_def
  aggressivePrune_def prunePercent_def unlink_def conservativePrune_def moderatePrune_def
  emergencyPrune_def sortByPruneScore_def withPruneScore_def scoreKey_def
  calculatePruneScore_def ageHours_def ageMs_def ceilCount_def

subsection \<open>The ranking and the aggressive strategy\<close>

lemma sessionId_withPruneScore [simp]: "sessionId (withPruneScore now s) = sessionId s"
  by (simp add: withPruneScore_def)

lemma set_sortByPruneScore [simp]:
  "set (sortByPruneScore now ss) = withPruneScore now ` set ss"
  by (simp add: sortByPruneScore_def)

lemma length_sortByPruneScore [simp]: "length (sortByPruneScore now ss) = length ss"
  by (simp add: sortByPruneScore_def)

lemma sorted_sortByPruneScore: "sorted (map scoreKey (sortByPruneScore now ss))"
  by (simp add: sortByPruneScore_def)

lemma prunePercent_range: "0 \<le> prunePercent u \<and> prunePercent u \<le> 1"
  by (simp add: prunePercent_def)

lemma ceilCount_le:
  assumes "0 \<le> p" and "p \<le> 1"
  shows "ceilCount n p \<le> n"
proof -
  have "of_nat n * p \<le> (of_nat n :: rat)"
    using assms by (simp add: mult_left_le)
  hence "\<lceil>of_nat n * p\<rceil> \<le> \<lceil>(of_nat n :: rat)\<rceil>"
    by (rule ceiling_mono)
  thus ?thesis by (simp add: ceilCount_def)
qed

lemma aggressive_length:
  "length (aggressivePrune now ss u) = ceilCount (length ss) (prunePercent u)"
proof -
  have "ceilCount (length ss) (prunePercent u) \<le> length ss"
    using prunePercent_range [of u] by (simp add: ceilCount_le)
  thus ?thesis by (simp add: aggressivePrune_def Let_def)
qed

text \<open>
  C3 (amended). The aggressive strategy evicts the lowest-ranked sessions of the eligible
  list, as many as the ceiling of the list length times a fraction of 70% when the
  utilization is above 95, 50% when it is above 90 (and at most 95), 35% when it is above
  80 (and at most 90), and 25% otherwise: the evicted sessions are a prefix of the
  ranking by ascending prune score, so none of them scores higher than a session that
  stays.
\<close>

theorem aggressive_fraction:
  "length (aggressivePrune now ss u) =
     nat \<lceil>of_nat (length ss) *
       (if u > 95 then 70 / 100 else if u > 90 then 50 / 100
        else if u > 80 then 35 / 100 else (25 / 100 :: rat))\<rceil>
   \<and> aggressivePrune now ss u @
       drop (length (aggressivePrune now ss u)) (sortByPruneScore now ss)
       = sortByPruneScore now ss
   \<and> set (sortByPruneScore now ss) = withPruneScore now ` set ss
   \<and> (\<forall>t \<in> set (aggressivePrune now ss u).
        \<forall>r \<in> set (drop (length (aggressivePrune now ss u)) (sortByPruneScore now ss)).
          scoreKey t \<le> scoreKey r)"
proof -
  let ?T = "aggressivePrune now ss u"
  let ?R = "drop (length ?T) (sortByPruneScore now ss)"
  have len: "length ?T = ceilCount (length ss) (prunePercent u)"
    by (rule aggressive_length)
  have 1: "length ?T =
     nat \<lceil>of_nat (length ss) *
       (if u > 95 then 70 / 100 else if u > 90 then 50 / 100
        else if u > 80 then 35 / 100 else (25 / 100 :: rat))\<rceil>"
    unfolding len by (simp add: ceilCount_def prunePercent_def)
  have 2: "?T @ ?R = sortByPruneScore now ss"
    unfolding len by (simp add: aggressivePrune_def Let_def)
  have "sorted (map scoreKey (?T @ ?R))"
    unfolding 2 by (rule sorted_sortByPruneScore)
  hence 3: "\<forall>t \<in> set ?T. \<forall>r \<in> set ?R. scoreKey t \<le> scoreKey r"
    by (simp add: sorted_append)
  show ?thesis using 1 2 3 by simp
qed

text \<open>
  At 85% and ten eligible sessions the fraction is 35%, which evicts four sessions; the
  ranking has ten entries.
\<close>

theorem aggressive_fraction_witness:
  "length (aggressivePrune exampleNow tenSessions 85) = 4
   \<and> length (aggressivePrune exampleNow tenSessions 85 @
        drop (length (aggressivePrune exampleNow tenSessions 85))
          (sortByPruneScore exampleNow tenSessions)) = 10"
proof -
  note inst = aggressive_fraction [of exampleNow tenSessions 85]
  have l: "length tenSessions = 10" by (simp add: tenSessions_def)
  from inst have "length (aggressivePrune exampleNow tenSessions 85) =
      nat \<lceil>of_nat (length tenSessions) *
       (if (85 :: rat) > 95 then 70 / 100 else if (85 :: rat) > 90 then 50 / 100
        else if (85 :: rat) > 80 then 35 / 100 else (25 / 100 :: rat))\<rceil>"
    by (rule conjunct1)
  hence 1: "length (aggressivePrune exampleNow tenSessions 85) = 4"
    unfolding l by simp
  from inst have "aggressivePrune exampleNow tenSessions 85 @
        drop (length (aggressivePrune exampleNow tenSessions 85))
          (sortByPruneScore exampleNow tenSessions) = sortByPruneScore exampleNow tenSessions"
    by blast
  hence "length (aggressivePrune exampleNow tenSessions 85 @
        drop (length (aggressivePrune exampleNow tenSessions 85))
          (sortByPruneScore exampleNow tenSessions))
        = length (sortByPruneScore exampleNow tenSessions)"
    by (rule arg_cong)
  hence 2: "length (aggressivePrune exampleNow tenSessions 85 @
        drop (length (aggressivePrune exampleNow tenSessions 85))
          (sortByPruneScore exampleNow tenSessions)) = 10"
    by (simp only: length_sortByPruneScore l)
  from 1 2 show ?thesis by (rule conjI)
qed

text \<open>
  The fraction as the specification words it gives 25% at a utilization of 85 (only the
  band above 80 applies), that is three of ten sessions; the code evicts four.
\<close>

theorem aggressive_fraction_counterexample:
  "spec_aggressiveFraction 85 = Some (25 / 100)
   \<and> ceilCount (length tenSessions) (25 / 100) = 3
   \<and> length (aggressivePrune exampleNow tenSessions 85) = 4"
  by (simp add: spec_aggressiveFraction_def spec_bands_def ceilCount_def tenSessions_def
      aggressivePrune_def prunePercent_def)

subsection \<open>Protected sessions\<close>

lemma set_pushMissing: "set (pushMissing ts cs) \<subseteq> set ts \<union> set cs"
proof (induction cs arbitrary: ts)
  case Nil
  show ?case by simp
next
  case (Cons c cs)
  show ?case
  proof (cases "find (\<lambda>t. sessionId t = sessionId c) ts")
    case None
    hence "set (pushMissing ts (c # cs)) = set (pushMissing (ts @ [c]) cs)" by simp
    also have "\<dots> \<subseteq> set (ts @ [c]) \<union> set cs" by (rule Cons.IH)
    finally show ?thesis by auto
  next
    case (Some t)
    hence "set (pushMissing ts (c # cs)) = set (pushMissing ts cs)" by simp
    also have "\<dots> \<subseteq> set ts \<union> set cs" by (rule Cons.IH)
    finally show ?thesis by auto
  qed
qed

lemma ids_conservativePrune:
  "sessionId ` set (conservativePrune cfg now ss) \<subseteq> sessionId ` set ss"
  by (auto simp: conservativePrune_def Let_def)

lemma ids_emergencyPrune:
  "sessionId ` set (emergencyPrune cfg now ss) \<subseteq> sessionId ` set ss"
  by (auto simp: emergencyPrune_def Let_def)

lemma ids_aggressivePrune:
  "sessionId ` set (aggressivePrune now ss u) \<subseteq> sessionId ` set ss"
proof
  fix i assume "i \<in> sessionId ` set (aggressivePrune now ss u)"
  then obtain t where t: "t \<in> set (aggressivePrune now ss u)" "i = sessionId t" by auto
  hence "t \<in> set (sortByPruneScore now ss)"
    by (auto simp: aggressivePrune_def Let_def dest: in_set_takeD)
  thus "i \<in> sessionId ` set ss" using t by auto
qed

lemma ids_moderatePrune:
  "sessionId ` set (moderatePrune cfg now ss u) \<subseteq> sessionId ` set ss"
proof
  fix i assume "i \<in> sessionId ` set (moderatePrune cfg now ss u)"
  then obtain t where t: "t \<in> set (moderatePrune cfg now ss u)" "i = sessionId t" by auto
  show "i \<in> sessionId ` set ss"
  proof (cases "u > 80")
    case False
    with t have "t \<in> set (conservativePrune cfg now ss)" by (simp add: moderatePrune_def)
    thus ?thesis using t ids_conservativePrune by blast
  next
    case True
    with t have "t \<in> set (pushMissing (conservativePrune cfg now ss)
        (take (ceilCount (length (sortByPruneScore now ss)) (25 / 100))
           (sortByPruneScore now ss)))"
      by (simp add: moderatePrune_def Let_def)
    hence "t \<in> set (conservativePrune cfg now ss) \<or> t \<in> set (sortByPruneScore now ss)"
      using set_pushMissing by (fastforce dest: in_set_takeD)
    thus ?thesis
    proof
      assume "t \<in> set (conservativePrune cfg now ss)"
      thus ?thesis using t ids_conservativePrune by blast
    next
      assume "t \<in> set (sortByPruneScore now ss)"
      thus ?thesis using t by auto
    qed
  qed
qed

lemma ids_selectPruneTargets:
  "sessionId ` set (selectPruneTargets cfg now ss strategy u)
     \<subseteq> sessionId ` set (filter (\<lambda>s. \<not> isProtected cfg now s) ss)"
proof -
  let ?ps = "filter (\<lambda>s. \<not> isProtected cfg now s) ss"
  have cases: "selectPruneTargets cfg now ss strategy u = [] \<or>
      selectPruneTargets cfg now ss strategy u = conservativePrune cfg now ?ps \<or>
      selectPruneTargets cfg now ss strategy u = moderatePrune cfg now ?ps u \<or>
      selectPruneTargets cfg now ss strategy u = aggressivePrune now ?ps u \<or>
      selectPruneTargets cfg now ss strategy u = emergencyPrune cfg now ?ps"
    unfolding selectPruneTargets_def Let_def by presburger
  have "sessionId ` set X \<subseteq> sessionId ` set ?ps"
    if "X = [] \<or> X = conservativePrune cfg now ?ps \<or> X = moderatePrune cfg now ?ps u \<or>
        X = aggressivePrune now ?ps u \<or> X = emergencyPrune cfg now ?ps" for X
    using that ids_conservativePrune [of cfg now ?ps] ids_moderatePrune [of cfg now ?ps u]
      ids_aggressivePrune [of now ?ps u] ids_emergencyPrune [of cfg now ?ps]
    by (elim disjE) simp_all
  with cases show ?thesis by blast
qed

lemma protected_id_not_selected:
  assumes "distinct (map sessionId ss)" and "s \<in> set ss" and "isProtected cfg now s"
  shows "sessionId s \<notin> sessionId ` set (selectPruneTargets cfg now ss strategy u)"
proof
  assume "sessionId s \<in> sessionId ` set (selectPruneTargets cfg now ss strategy u)"
  hence "sessionId s \<in> sessionId ` set (filter (\<lambda>s. \<not> isProtected cfg now s) ss)"
    using ids_selectPruneTargets by blast
  then obtain t where t: "t \<in> set ss" "\<not> isProtected cfg now t" "sessionId t = sessionId s"
    by auto
  from assms(1) t(1) assms(2) t(3) have "t = s"
    by (meson distinct_map inj_onD)
  with t(2) assms(3) show False by simp
qed

text \<open>
  C4 (amended). In a snapshot whose session ids are distinct, a session whose age is under
  the keep-recent floor, or whose message count meets the high-engagement floor while
  \<open>preserveHighEngagement\<close> is enabled (the default), is selected by no strategy of the
  Pruner, whatever the utilization. In particular, under the default configuration a
  session with 15 messages and an age of one hour is never selected.
\<close>

theorem protected_never_selected:
  "(distinct (map sessionId ss) \<and> s \<in> set ss \<and>
      (ageHours now s < keepRecentHours cfg \<or>
       (preserveHighEngagement cfg \<and> of_nat (messageCount s) \<ge> minMessagesForImportant cfg))
     \<longrightarrow> sessionId s \<notin> sessionId ` set (selectPruneTargets cfg now ss strategy u))
   \<and> (distinct (map sessionId ss) \<and> s \<in> set ss \<and> messageCount s = 15 \<and>
        lastActive s = now - 3600000
     \<longrightarrow> sessionId s \<notin>
           sessionId ` set (selectPruneTargets default_pruner_config now ss strategy u))"
proof (intro conjI impI)
  assume a: "distinct (map sessionId ss) \<and> s \<in> set ss \<and>
      (ageHours now s < keepRecentHours cfg \<or>
       (preserveHighEngagement cfg \<and> of_nat (messageCount s) \<ge> minMessagesForImportant cfg))"
  hence "isProtected cfg now s" by (auto simp: isProtected_def)
  with a show "sessionId s \<notin> sessionId ` set (selectPruneTargets cfg now ss strategy u)"
    using protected_id_not_selected by blast
next
  assume a: "distinct (map sessionId ss) \<and> s \<in> set ss \<and> messageCount s = 15 \<and>
        lastActive s = now - 3600000"
  hence "isProtected default_pruner_config now s"
    by (simp add: isProtected_def default_pruner_config_def ageHours_def ageMs_def)
  with a show "sessionId s \<notin>
           sessionId ` set (selectPruneTargets default_pruner_config now ss strategy u)"
    using protected_id_not_selected by blast
qed

text \<open>
  The session with 15 messages and an age of one hour, next to ten old sessions, at a
  utilization of 96 under the aggressive strategy.
\<close>

theorem protected_never_selected_witness:
  "distinct (map sessionId (engagedFreshSession # tenSessions))
   \<and> engagedFreshSession \<in> set (engagedFreshSession # tenSessions)
   \<and> messageCount engagedFreshSession = 15
   \<and> lastActive engagedFreshSession = exampleNow - 3600000
   \<and> ageHours exampleNow engagedFreshSession < keepRecentHours default_pruner_config
   \<and> sessionId engagedFreshSession \<notin>
       sessionId ` set (selectPruneTargets default_pruner_config exampleNow
                          (engagedFreshSession # tenSessions) ''aggressive'' 96)"
proof -
  have h: "distinct (map sessionId (engagedFreshSession # tenSessions))
      \<and> engagedFreshSession \<in> set (engagedFreshSession # tenSessions)
      \<and> messageCount engagedFreshSession = 15
      \<and> lastActive engagedFreshSession = exampleNow - 3600000"
    by (simp add: engagedFreshSession_def tenSessions_def plainSession_def exampleNow_def)
  have r: "ageHours exampleNow engagedFreshSession < keepRecentHours default_pruner_config"
    by (simp add: engagedFreshSession_def plainSession_def exampleNow_def ageHours_def
        ageMs_def default_pruner_config_def)
  from h r protected_never_selected
         [where ss = "engagedFreshSession # tenSessions" and s = engagedFreshSession
            and now = exampleNow and cfg = default_pruner_config
            and strategy = "''aggressive''" and u = 96]
  show ?thesis by blast
qed

text \<open>
  With \<open>preserveHighEngagement\<close> switched off, a session that meets the message floor
  (15 messages against a floor of 10) and is ten days old is selected by the conservative
  strategy.
\<close>

theorem protected_never_selected_counterexample:
  "of_nat (messageCount engagedOldSession) \<ge> minMessagesForImportant engagementOff
   \<and> selectPruneTargets engagementOff exampleNow [engagedOldSession] ''conservative'' 50
       = [engagedOldSession]"
  by (simp add: pruner_defs engagedOldSession_def plainSession_def engagementOff_def
      exampleNow_def Let_def)

subsection \<open>Unlinking and the prune loop\<close>

lemma path_sessionInfo [simp]: "path (sessionInfo now f) = sessionFilePath f"
  by (simp add: sessionInfo_def)

lemma set_usage_sessions [simp]:
  "set (sessions (getContextUsage mcfg now store)) = sessionInfo now ` set store"
  by (simp add: getContextUsage_def Let_def)

lemma unlink_Inr_filter:
  "unlink S p = Inr S' \<Longrightarrow> S' = filter (\<lambda>g. sessionFilePath g \<noteq> p) S"
  by (auto simp: unlink_def split: option.splits if_splits)

lemma find_filter_other:
  "p \<noteq> q \<Longrightarrow>
   find (\<lambda>f. sessionFilePath f = p) (filter (\<lambda>g. sessionFilePath g \<noteq> q) S)
     = find (\<lambda>f. sessionFilePath f = p) S"
  by (induction S) auto

lemma find_filter_same:
  "find (\<lambda>f. sessionFilePath f = p) (filter (\<lambda>g. sessionFilePath g \<noteq> p) S) = None"
  by (induction S) auto

lemma unlink_fails_stable:
  assumes "unlink S q = Inr S'" and "isl (unlink S p)"
  shows "isl (unlink S' p)"
proof -
  from assms(1) have S': "S' = filter (\<lambda>g. sessionFilePath g \<noteq> q) S"
    by (rule unlink_Inr_filter)
  show ?thesis
  proof (cases "p = q")
    case True
    with assms show ?thesis by simp
  next
    case False
    hence "find (\<lambda>f. sessionFilePath f = p) S' = find (\<lambda>f. sessionFilePath f = p) S"
      unfolding S' by (rule find_filter_other)
    with assms(2) show ?thesis
      by (auto simp: unlink_def split: option.splits if_splits)
  qed
qed

lemma unlink_twice_fails:
  assumes "unlink S p = Inr S'"
  shows "isl (unlink S' p)"
proof -
  from assms have "S' = filter (\<lambda>g. sessionFilePath g \<noteq> p) S"
    by (rule unlink_Inr_filter)
  thus ?thesis by (simp add: unlink_def find_filter_same)
qed

lemma pruneLoop_subset: "set (fst (pruneLoop S r ts)) \<subseteq> set S"
proof (induction ts arbitrary: S r)
  case Nil
  show ?case by simp
next
  case (Cons t ts)
  show ?case
  proof (cases "unlink S (path t)")
    case (Inl e)
    thus ?thesis using Cons.IH [of S r] by simp
  next
    case (Inr S')
    hence "set S' \<subseteq> set S" by (auto dest: unlink_Inr_filter)
    moreover have "set (fst (pruneLoop S r (t # ts))) \<subseteq> set S'"
      using Inr Cons.IH by simp
    ultimately show ?thesis by blast
  qed
qed

lemma pruneLoop_keeps_failing:
  "isl (unlink S p) \<Longrightarrow> isl (unlink (fst (pruneLoop S r ts)) p)"
proof (induction ts arbitrary: S r)
  case Nil
  thus ?case by simp
next
  case (Cons t ts)
  show ?case
  proof (cases "unlink S (path t)")
    case (Inl e)
    thus ?thesis using Cons by simp
  next
    case (Inr S')
    hence "isl (unlink S' p)" using Cons.prems by (rule unlink_fails_stable)
    thus ?thesis using Inr Cons.IH by simp
  qed
qed

lemma pruneLoop_targets_gone:
  "t \<in> set ts \<Longrightarrow> isl (unlink (fst (pruneLoop S r ts)) (path t))"
proof (induction ts arbitrary: S r)
  case Nil
  thus ?case by simp
next
  case (Cons a ts)
  show ?case
  proof (cases "unlink S (path a)")
    case (Inl e)
    show ?thesis
    proof (cases "t = a")
      case True
      have "isl (unlink S (path a))" using Inl by simp
      hence "isl (unlink (fst (pruneLoop S r ts)) (path a))"
        by (rule pruneLoop_keeps_failing)
      thus ?thesis using Inl True by simp
    next
      case False
      with Cons.prems have "t \<in> set ts" by simp
      thus ?thesis using Inl Cons.IH by simp
    qed
  next
    case (Inr S')
    let ?r = "r\<lparr> sessionsPruned := sessionsPruned r + 1,
                  tokensFreed := tokensFreed r + tokenCount a,
                  prunedSessions :=
                    prunedSessions r @ [(sessionId a, tokenCount a, messageCount a)] \<rparr>"
    have unfold_step: "pruneLoop S r (a # ts) = pruneLoop S' ?r ts" using Inr by simp
    show ?thesis
    proof (cases "t = a")
      case True
      have "isl (unlink S' (path a))" using Inr by (rule unlink_twice_fails)
      hence "isl (unlink (fst (pruneLoop S' ?r ts)) (path a))"
        by (rule pruneLoop_keeps_failing)
      thus ?thesis using unfold_step True by simp
    next
      case False
      with Cons.prems have "t \<in> set ts" by simp
      hence "isl (unlink (fst (pruneLoop S' ?r ts)) (path t))" by (rule Cons.IH)
      thus ?thesis using unfold_step by simp
    qed
  qed
qed

lemma pruneLoop_all_fail:
  "\<forall>t\<in>set ts. isl (unlink S (path t)) \<Longrightarrow> pruneLoop S r ts = (S, r)"
  by (induction ts) (auto split: sum.splits)

lemma conservative_targets:
  "set (selectPruneTargets cfg now (sessions (getContextUsage mcfg now store))
          ''conservative'' u)
     = sessionInfo now ` {f \<in> set store. conservativeEligible cfg now f}"
proof -
  let ?ss = "sessions (getContextUsage mcfg now store)"
  let ?ps = "filter (\<lambda>s. \<not> isProtected cfg now s) ?ss"
  have "selectPruneTargets cfg now ?ss ''conservative'' u = conservativePrune cfg now ?ps"
    by (cases "?ps = []") (simp_all add: selectPruneTargets_def Let_def conservativePrune_def)
  thus ?thesis
    by (auto simp: conservativePrune_def Let_def conservativeEligible_def)
qed

subsection \<open>Conservative pruning twice\<close>

text \<open>
  C9 (amended). When \<^verbatim>\<open>prune('conservative')\<close> runs at clock reading \<open>now1\<close> and again at
  \<open>now2\<close> on the store the first call left, with no session added in between, the second
  call evicts zero sessions, provided that no surviving session has become eligible
  between the two readings (eligible: unprotected and strictly older than the maximum
  age); this holds in particular when both calls read the same clock value. A session
  the first call failed to unlink fails again and is not counted.
\<close>

theorem conservative_twice:
  assumes "\<forall>f \<in> set (fst (prune cfg mcfg now1 store ''conservative'')).
             conservativeEligible cfg now2 f \<longrightarrow> conservativeEligible cfg now1 f"
  shows "sessionsPruned (snd (prune cfg mcfg now2
            (fst (prune cfg mcfg now1 store ''conservative'')) ''conservative'')) = 0"
proof -
  let ?u1 = "getContextUsage mcfg now1 store"
  let ?T1 = "selectPruneTargets cfg now1 (sessions ?u1) ''conservative''
               (utilizationPercent ?u1)"
  let ?r1 = "\<lparr> pr_strategy = ''conservative'', sessionsPruned = 0, tokensFreed = 0,
              sessionsPreserved = int (length (sessions ?u1)) - int (length ?T1),
              prunedSessions = [] \<rparr>"
  let ?S1 = "fst (pruneLoop store ?r1 ?T1)"
  have S1: "fst (prune cfg mcfg now1 store ''conservative'') = ?S1"
    by (simp add: prune_def Let_def)
  let ?u2 = "getContextUsage mcfg now2 ?S1"
  let ?T2 = "selectPruneTargets cfg now2 (sessions ?u2) ''conservative''
               (utilizationPercent ?u2)"
  let ?r2 = "\<lparr> pr_strategy = ''conservative'', sessionsPruned = 0, tokensFreed = 0,
              sessionsPreserved = int (length (sessions ?u2)) - int (length ?T2),
              prunedSessions = [] \<rparr>"
  have fail: "\<forall>t\<in>set ?T2. isl (unlink ?S1 (path t))"
  proof
    fix t assume "t \<in> set ?T2"
    then obtain f where f: "f \<in> set ?S1" "conservativeEligible cfg now2 f"
        "t = sessionInfo now2 f"
      unfolding conservative_targets by auto
    from f(1,2) assms have e1: "conservativeEligible cfg now1 f" unfolding S1 by blast
    from f(1) have "f \<in> set store" using pruneLoop_subset by blast
    with e1 have "sessionInfo now1 f \<in> set ?T1" unfolding conservative_targets by blast
    hence "isl (unlink ?S1 (path (sessionInfo now1 f)))" by (rule pruneLoop_targets_gone)
    thus "isl (unlink ?S1 (path t))" using f(3) by simp
  qed
  have "prune cfg mcfg now2 ?S1 ''conservative'' = pruneLoop ?S1 ?r2 ?T2"
    by (simp add: prune_def Let_def)
  also have "\<dots> = (?S1, ?r2)" using fail by (rule pruneLoop_all_fail)
  finally show ?thesis unfolding S1 by simp
qed

lemma mixedStore_after_first:
  "fst (prune default_pruner_config default_monitor_config exampleNow mixedStore
          ''conservative'')
     = [(sessionFile ''locked'' 100 1 222400000)\<lparr> deletable := False \<rparr>,
        sessionFile ''recent'' 100 1 996400000]"
  by (simp add: monitor_defs pruner_defs mixedStore_def exampleNow_def Let_def)

text \<open>
  Two calls one minute apart on the three-session store: the first call removes the
  eight-day-old session and fails on the locked one; no survivor becomes eligible in
  between; the second call evicts nothing.
\<close>

theorem conservative_twice_witness:
  "fst (prune default_pruner_config default_monitor_config exampleNow mixedStore
          ''conservative'')
     = [(sessionFile ''locked'' 100 1 222400000)\<lparr> deletable := False \<rparr>,
        sessionFile ''recent'' 100 1 996400000]
   \<and> sessionsPruned (snd (prune default_pruner_config default_monitor_config
        (exampleNow + 60000)
        (fst (prune default_pruner_config default_monitor_config exampleNow mixedStore
                ''conservative'')) ''conservative'')) = 0"
proof -
  have h: "\<forall>f \<in> set (fst (prune default_pruner_config default_monitor_config exampleNow
                            mixedStore ''conservative'')).
      conservativeEligible default_pruner_config (exampleNow + 60000) f \<longrightarrow>
      conservativeEligible default_pruner_config exampleNow f"
    unfolding mixedStore_after_first
    by (simp add: conservativeEligible_def monitor_defs isProtected_def
        default_pruner_config_def ageHours_def ageMs_def exampleNow_def)
  from mixedStore_after_first conservative_twice [OF h] show ?thesis by (rule conjI)
qed

text \<open>
  A session that is exactly seven days old at the first call is not older than the
  maximum age: the first call evicts nothing and leaves the store as it is. One
  millisecond later the session is older than seven days, and the second call evicts it.
\<close>

theorem conservative_twice_counterexample:
  "sessionsPruned (snd (prune default_pruner_config default_monitor_config 1000000000
      weekOldSession ''conservative'')) = 0
   \<and> fst (prune default_pruner_config default_monitor_config 1000000000
      weekOldSession ''conservative'') = weekOldSession
   \<and> sessionsPruned (snd (prune default_pruner_config default_monitor_config 1000000001
      (fst (prune default_pruner_config default_monitor_config 1000000000
         weekOldSession ''conservative'')) ''conservative'')) = 1"
  by (simp add: monitor_defs pruner_defs weekOldSession_def Let_def)

subsection \<open>Archive-then-delete on the cleanup paths\<close>

text \<open>
  The Emergency Handler keeps the order: a session file that its run removed from the
  live directory is held by a bundle, and a failing archive call blocks every deletion.
  The Watcher's routine cleanup deletes nothing either when the archive call fails.
\<close>

lemma archive_outcomes:
  "archiveSessions date store ast ss reason = (out, ast') \<Longrightarrow>
     (\<exists>e. out = Inl e) \<or> ss = [] \<and> ast' = ast \<or> set (map path ss) \<subseteq> archivedPaths ast'"
  by (auto simp: archiveSessions_def archivedPaths_def Let_def split: if_splits)

lemma execute_live_cases:
  "live (snd (execute ecfg mcfg now date sys)) = live sys \<or>
   sessionFilePath ` set (live sys)
     \<subseteq> archivedPaths (arch (snd (execute ecfg mcfg now date sys)))"
proof -
  let ?ss = "sessions (getContextUsage mcfg now (live sys))"
  obtain out ast where
    a: "archiveSessions date (live sys) (arch sys) ?ss ''emergency-cleanup'' = (out, ast)"
    by (cases "archiveSessions date (live sys) (arch sys) ?ss ''emergency-cleanup''")
  have paths: "set (map path ?ss) = sessionFilePath ` set (live sys)"
    by (simp add: image_image)
  show ?thesis
  proof (cases out)
    case (Inl e)
    with a show ?thesis by (simp add: execute_def Let_def)
  next
    case (Inr res)
    from archive_outcomes [OF a] Inr
    have "?ss = [] \<and> ast = arch sys \<or> set (map path ?ss) \<subseteq> archivedPaths ast" by auto
    thus ?thesis
    proof
      assume "?ss = [] \<and> ast = arch sys"
      hence "live (snd (execute ecfg mcfg now date sys)) = live sys"
        using a Inr by (simp add: execute_def Let_def split: prod.splits option.splits)
      thus ?thesis ..
    next
      assume "set (map path ?ss) \<subseteq> archivedPaths ast"
      hence "sessionFilePath ` set (live sys) \<subseteq> archivedPaths ast" unfolding paths .
      moreover have "arch (snd (execute ecfg mcfg now date sys)) = ast"
        using a Inr by (simp add: execute_def Let_def split: prod.splits option.splits)
      ultimately show ?thesis by simp
    qed
  qed
qed

lemma emergency_archives_before_delete:
  assumes "f \<in> set (live sys)"
    and "f \<notin> set (live (snd (execute ecfg mcfg now date sys)))"
  shows "sessionFilePath f \<in> archivedPaths (arch (snd (execute ecfg mcfg now date sys)))"
  using execute_live_cases [of ecfg mcfg now date sys] assms by auto

lemma emergency_archive_failure_blocks_deletion:
  assumes "fst (archiveSessions date (live sys) (arch sys)
                  (sessions (getContextUsage mcfg now (live sys))) ''emergency-cleanup'')
           = Inl e"
  shows "live (snd (execute ecfg mcfg now date sys)) = live sys"
  using assms
  by (cases "archiveSessions date (live sys) (arch sys)
               (sessions (getContextUsage mcfg now (live sys))) ''emergency-cleanup''")
     (simp add: execute_def Let_def)

lemma archive_fails_without_tar:
  "\<not> tarOk ast \<Longrightarrow> length ss \<noteq> 0 \<Longrightarrow>
   archiveSessions date store ast ss reason = (Inl ArchiveFailed, ast)"
  by (simp add: archiveSessions_def Let_def)

lemma routine_archive_failure_blocks_deletion:
  assumes "\<not> tarOk (arch sys)"
  shows "live (fst (triggerRoutineCleanup pcfg mcfg now date percent sys)) = live sys"
proof -
  have "live (fst (if length tp = 0 then (sys, False)
         else case archiveSessions date (live sys) (arch sys) tp ''auto-cleanup'' of
                (Inl e, ast) \<Rightarrow> (sys\<lparr> arch := ast \<rparr>, False)
              | (Inr archiveResult, ast) \<Rightarrow>
                  let (store', pruneResult) = prune pcfg mcfg now (live sys) strategy
                  in (\<lparr> live = store', arch = ast \<rparr>, True))) = live sys" for tp strategy
    using assms by (cases "length tp = 0") (simp_all add: archive_fails_without_tar)
  thus ?thesis unfolding triggerRoutineCleanup_def Let_def .
qed

text \<open>
  C1. One tick of the Watcher on four unprotected sessions at 85% utilization, with the
  default configurations: the Watcher archives the oldest quarter of its own selection
  (\<^verbatim>\<open>d.json\<close>) and then calls \<^verbatim>\<open>prune('aggressive')\<close>, which unlinks the 35% of lowest prune
  score (\<^verbatim>\<open>d.json\<close> and \<^verbatim>\<open>c.json\<close>). Afterwards \<^verbatim>\<open>c.json\<close> is gone from the live
  directory and no bundle holds it.
\<close>

theorem routine_cleanup_deletes_unarchived:
  "map sessionFilePath fourOldSessions = [''a.json'', ''b.json'', ''c.json'', ''d.json'']
   \<and> map sessionFilePath
        (live (fst (performCheck default_watcher_config default_pruner_config
                      default_emergency_config default_monitor_config exampleNow
                      ''2026-01-01'' \<lparr> live = fourOldSessions, arch = emptyArchive \<rparr>)))
       = [''a.json'', ''b.json'']
   \<and> bundles
        (arch (fst (performCheck default_watcher_config default_pruner_config
                      default_emergency_config default_monitor_config exampleNow
                      ''2026-01-01'' \<lparr> live = fourOldSessions, arch = emptyArchive \<rparr>)))
       = [(''sessions-2026-01-01.tar.gz'', [''d.json''])]"
  by (simp add: monitor_defs pruner_defs Let_def exampleNow_def fourOldSessions_def
      emptyArchive_def performCheck_def default_watcher_config_def
      triggerRoutineCleanup_def getRecommendedStrategy_def watcherIsProtected_def
      archiveSessions_def)

subsection \<open>The floor of the Emergency Handler\<close>

text \<open>
  The keep list never has more than \<open>keepMinimumSessions\<close> entries, and it is empty when
  no session is younger than the keep-recent window.
\<close>

lemma sessionsToKeep_capped:
  "length (sessionsToKeep ecfg now ss) \<le> e_keepMinimumSessions ecfg"
  by (simp add: sessionsToKeep_def Let_def)

lemma sessionsToKeep_all_stale:
  assumes "\<forall>s \<in> set ss. \<not> ageMs now s < e_keepRecentHours ecfg * 60 * 60 * 1000"
  shows "sessionsToKeep ecfg now ss = []"
proof -
  have "filter (\<lambda>s. ageMs now s < e_keepRecentHours ecfg * 60 * 60 * 1000) ss = []"
    using assms by (simp add: filter_empty_conv)
  thus ?thesis by (simp add: sessionsToKeep_def Let_def)
qed

text \<open>
  C2. With the default emergency configuration (keep the sessions of the last 6 hours,
  \<open>keepMinimumSessions = 3\<close>) and five sessions that are all about ten hours old,
  \<^verbatim>\<open>execute\<close> archives the five sessions, keeps none and unlinks all five: no live
  session survives, although the floor is three.
\<close>

theorem emergency_drops_below_minimum:
  "e_keepMinimumSessions default_emergency_config = 3
   \<and> length fiveStaleSessions = 5
   \<and> live (snd (execute default_emergency_config default_monitor_config exampleNow
                   ''2026-01-01'' \<lparr> live = fiveStaleSessions, arch = emptyArchive \<rparr>)) = []
   \<and> er_deleted (fst (execute default_emergency_config default_monitor_config exampleNow
                   ''2026-01-01'' \<lparr> live = fiveStaleSessions, arch = emptyArchive \<rparr>)) = 5
   \<and> er_kept (fst (execute default_emergency_config default_monitor_config exampleNow
                   ''2026-01-01'' \<lparr> live = fiveStaleSessions, arch = emptyArchive \<rparr>)) = 0
   \<and> er_archived (fst (execute default_emergency_config default_monitor_config exampleNow
                   ''2026-01-01'' \<lparr> live = fiveStaleSessions, arch = emptyArchive \<rparr>)) = Some 5"
  by (simp add: monitor_defs Let_def exampleNow_def fiveStaleSessions_def emptyArchive_def
      unlink_def execute_def default_emergency_config_def sessionsToKeep_def
      archiveSessions_def ageMs_def)

subsection \<open>Restore skips what exists\<close>

lemma copyBack_preserves:
  "dir name = Some content \<Longrightarrow> snd (copyBack writable dir n files) name = Some content"
proof (induction files arbitrary: dir n)
  case Nil
  thus ?case by simp
next
  case (Cons f fs)
  show ?case
  proof (cases "dir (fst f) \<noteq> None")
    case True
    thus ?thesis using Cons by simp
  next
    case False
    hence neq: "fst f \<noteq> name" using Cons.prems by auto
    show ?thesis
    proof (cases "writable (fst f)")
      case True
      have "(dir(fst f \<mapsto> snd f)) name = Some content" using neq Cons.prems by simp
      hence "snd (copyBack writable (dir(fst f \<mapsto> snd f)) (n + 1) fs) name = Some content"
        by (rule Cons.IH)
      thus ?thesis using False True by simp
    next
      case unwritable: False
      thus ?thesis using False Cons.prems by simp
    qed
  qed
qed

lemma filter_upd_other:
  "x \<notin> fst ` set fs \<Longrightarrow>
   filter (\<lambda>f. (dir(x \<mapsto> c)) (fst f) = None) fs = filter (\<lambda>f. dir (fst f) = None) fs"
  by (rule filter_cong) auto

lemma copyBack_count:
  "distinct (map fst files) \<Longrightarrow> copyBack writable dir n files = (Inr m, dir') \<Longrightarrow>
   m = n + length (filter (\<lambda>f. dir (fst f) = None) files)"
proof (induction files arbitrary: dir n)
  case Nil
  thus ?case by simp
next
  case (Cons f fs)
  from Cons.prems(1) have d: "distinct (map fst fs)" and nin: "fst f \<notin> fst ` set fs"
    by auto
  show ?case
  proof (cases "dir (fst f) \<noteq> None")
    case True
    hence "copyBack writable dir n fs = (Inr m, dir')" using Cons.prems(2) by simp
    hence "m = n + length (filter (\<lambda>f. dir (fst f) = None) fs)" using d Cons.IH by blast
    thus ?thesis using True by simp
  next
    case False
    show ?thesis
    proof (cases "writable (fst f)")
      case True
      hence "copyBack writable (dir(fst f \<mapsto> snd f)) (n + 1) fs = (Inr m, dir')"
        using False Cons.prems(2) by simp
      hence "m = (n + 1) + length (filter (\<lambda>g. (dir(fst f \<mapsto> snd f)) (fst g) = None) fs)"
        using d Cons.IH by blast
      hence "m = (n + 1) + length (filter (\<lambda>g. dir (fst g) = None) fs)"
        by (simp only: filter_upd_other [OF nin])
      thus ?thesis using False by simp
    next
      case unwritable: False
      thus ?thesis using False Cons.prems(2) by simp
    qed
  qed
qed

lemma length_filter_split:
  "length (filter P xs) + length (filter (\<lambda>x. \<not> P x) xs) = length xs"
  by (induction xs) auto

lemma restore_preserves:
  assumes "dir n = Some c"
  shows "snd (restore archives writable name dir) n = Some c"
proof (cases "archives name")
  case None
  thus ?thesis using assms by (simp add: restore_def)
next
  case (Some obj)
  show ?thesis
  proof (cases "openArchive name obj")
    case (Inl e)
    thus ?thesis using Some assms by (simp add: restore_def)
  next
    case (Inr files)
    from assms have "snd (copyBack writable dir 0 files) n = Some c"
      by (rule copyBack_preserves)
    thus ?thesis using Some Inr
      by (cases "copyBack writable dir 0 files"; cases "fst (copyBack writable dir 0 files)")
         (simp_all add: restore_def)
  qed
qed

text \<open>
  C5. Whatever the archive and the outcome, a file that exists in the restore target
  directory keeps its content. When \<^verbatim>\<open>restore\<close> returns its report for a bundle whose
  listing is \<open>files\<close> (names distinct, as in a directory), the skipped count is the
  number of bundle files whose name existed in the target, the restored count is the
  number of the others, and the report holds both.
\<close>

theorem restore_skips_existing:
  "(dir n = Some c \<longrightarrow> snd (restore archives writable name dir) n = Some c)
   \<and> (archives name = Some obj \<and> openArchive name obj = Inr files \<and>
      distinct (map fst files) \<and> fst (restore archives writable name dir) = Inr rep
      \<longrightarrow> skipped rep = length (filter (\<lambda>f. dir (fst f) \<noteq> None) files) \<and>
          restored rep = length (filter (\<lambda>f. dir (fst f) = None) files) \<and>
          restored rep + skipped rep = length files)"
proof (intro conjI impI)
  assume "dir n = Some c"
  thus "snd (restore archives writable name dir) n = Some c" by (rule restore_preserves)
next
  assume a: "archives name = Some obj \<and> openArchive name obj = Inr files \<and>
      distinct (map fst files) \<and> fst (restore archives writable name dir) = Inr rep"
  obtain out dir' where cb: "copyBack writable dir 0 files = (out, dir')"
    by (cases "copyBack writable dir 0 files")
  from a cb obtain m where m: "out = Inr m"
      "rep = \<lparr> restored = m, skipped = length files - m \<rparr>"
    by (cases out) (auto simp: restore_def)
  from cb m(1) a have mm: "m = length (filter (\<lambda>f. dir (fst f) = None) files)"
    using copyBack_count [of files writable dir 0 m dir'] by simp
  have parts: "length (filter (\<lambda>f. dir (fst f) = None) files)
          + length (filter (\<lambda>f. dir (fst f) \<noteq> None) files) = length files"
    using length_filter_split [of "\<lambda>f. dir (fst f) = None" files] by simp
  show "skipped rep = length (filter (\<lambda>f. dir (fst f) \<noteq> None) files)"
    using m(2) mm parts by simp
  show "restored rep = length (filter (\<lambda>f. dir (fst f) = None) files)"
    using m(2) mm by simp
  show "restored rep + skipped rep = length files"
    using m(2) mm parts by simp
qed

lemma example_restore:
  "restore exampleArchives allWritable ''sessions-2026-01-01.tar.gz'' exampleLiveDir
     = (Inr \<lparr> restored = 1, skipped = 1 \<rparr>,
        exampleLiveDir(''s2.json'' \<mapsto> ''archived two''))"
  by (simp add: restore_def exampleArchives_def exampleLiveDir_def allWritable_def
      openArchive_def endsWith_def)

text \<open>
  A bundle with \<^verbatim>\<open>s1.json\<close> and \<^verbatim>\<open>s2.json\<close> restored over a directory that has a newer
  \<^verbatim>\<open>s1.json\<close>: the live file keeps its content, one file is restored, one skipped.
\<close>

theorem restore_skips_existing_witness:
  "exampleLiveDir ''s1.json'' = Some ''newer one''
   \<and> snd (restore exampleArchives allWritable ''sessions-2026-01-01.tar.gz'' exampleLiveDir)
        ''s1.json'' = Some ''newer one''
   \<and> fst (restore exampleArchives allWritable ''sessions-2026-01-01.tar.gz'' exampleLiveDir)
        = Inr \<lparr> restored = 1, skipped = 1 \<rparr>
   \<and> skipped \<lparr> restored = 1, skipped = 1 \<rparr> =
        length (filter (\<lambda>f. exampleLiveDir (fst f) \<noteq> None)
                  [(''s1.json'', ''archived one''), (''s2.json'', ''archived two'')])"
proof -
  note inst = restore_skips_existing
    [where dir = exampleLiveDir and n = "''s1.json''" and c = "''newer one''"
       and archives = exampleArchives and writable = allWritable
       and name = "''sessions-2026-01-01.tar.gz''"
       and obj = "TarGz (Some [(''temp-2026-01-01'',
                      EDir [(''s1.json'', ''archived one''), (''s2.json'', ''archived two'')])])"
       and files = "[(''s1.json'', ''archived one''), (''s2.json'', ''archived two'')]"
       and rep = "\<lparr> restored = 1, skipped = 1 \<rparr>"]
  have h1: "exampleLiveDir ''s1.json'' = Some ''newer one''"
    by (simp add: exampleLiveDir_def)
  have h2: "exampleArchives ''sessions-2026-01-01.tar.gz'' =
      Some (TarGz (Some [(''temp-2026-01-01'',
                      EDir [(''s1.json'', ''archived one''), (''s2.json'', ''archived two'')])]))"
    by (simp add: exampleArchives_def)
  have h3: "openArchive ''sessions-2026-01-01.tar.gz''
       (TarGz (Some [(''temp-2026-01-01'',
                      EDir [(''s1.json'', ''archived one''), (''s2.json'', ''archived two'')])]))
      = Inr [(''s1.json'', ''archived one''), (''s2.json'', ''archived two'')]"
    by (simp add: openArchive_def endsWith_def)
  have h4: "distinct (map fst [(''s1.json'', ''archived one''), (''s2.json'', ''archived two'')])"
    by simp
  have h5: "fst (restore exampleArchives allWritable ''sessions-2026-01-01.tar.gz''
                   exampleLiveDir) = Inr \<lparr> restored = 1, skipped = 1 \<rparr>"
    by (simp add: example_restore)
  from inst h1 h2 h3 h4 h5 show ?thesis by blast
qed

subsection \<open>Validation of the thresholds\<close>

text \<open>
  C6 (amended). The constructor of the configuration manager accepts whatever
  configuration the file holds. \<^verbatim>\<open>validate\<close>, when it is called on a configuration
  whose emergency threshold does not exceed the alert threshold, returns a result that
  is not valid and lists the error \<^verbatim>\<open>emergencyThreshold must be greater than
  alertThreshold\<close>; it does not throw.
\<close>

theorem validate_reports_threshold_order:
  assumes "cm_emergencyThreshold c = Some e" and "cm_alertThreshold c = Some a"
    and "e \<le> a"
  shows "ConfigManager (Parsed c) = c
       \<and> \<not> valid (validate c)
       \<and> ''emergencyThreshold must be greater than alertThreshold''
            \<in> set (errors (validate c))"
  using assms
  by (simp add: validate_def Let_def jsLessEq_def ConfigManager_def loadConfig_def)

theorem validate_reports_threshold_order_witness:
  "cm_emergencyThreshold invertedThresholds = Some 50
   \<and> cm_alertThreshold invertedThresholds = Some 80
   \<and> (50 :: rat) \<le> 80
   \<and> \<not> valid (validate invertedThresholds)
   \<and> ''emergencyThreshold must be greater than alertThreshold''
        \<in> set (errors (validate invertedThresholds))"
proof -
  have h1: "cm_emergencyThreshold invertedThresholds = Some 50"
    by (simp add: invertedThresholds_def)
  have h2: "cm_alertThreshold invertedThresholds = Some 80"
    by (simp add: invertedThresholds_def)
  have h3: "(50 :: rat) \<le> 80" by simp
  from h1 h2 h3 validate_reports_threshold_order [OF h1 h2 h3] show ?thesis by blast
qed

text \<open>
  A configuration file with an alert threshold of 80 and an emergency threshold of 50:
  the constructor returns a manager that holds exactly this configuration.
\<close>

theorem constructor_accepts_counterexample:
  "ConfigManager (Parsed invertedThresholds) = invertedThresholds
   \<and> cm_alertThreshold (ConfigManager (Parsed invertedThresholds)) = Some 80
   \<and> cm_emergencyThreshold (ConfigManager (Parsed invertedThresholds)) = Some 50"
  by (simp add: ConfigManager_def loadConfig_def invertedThresholds_def)

subsection \<open>The Watcher's timer\<close>

lemma timerInv_step: "timerInv w \<Longrightarrow> step wcfg w e = Some w' \<Longrightarrow> timerInv w'"
  by (cases e)
     (auto simp: timerInv_def start_def stop_def beginCheck_def Let_def
           split: if_splits option.splits)

lemma timerInv_run: "timerInv w \<Longrightarrow> run wcfg w es = Some w' \<Longrightarrow> timerInv w'"
proof (induction es arbitrary: w)
  case Nil
  thus ?case by simp
next
  case (Cons e es)
  then obtain w1 where w1: "step wcfg w e = Some w1" "run wcfg w1 es = Some w'"
    by (auto split: option.splits)
  from Cons.prems(1) w1(1) have "timerInv w1" by (rule timerInv_step)
  thus ?case using w1(2) by (rule Cons.IH)
qed

text \<open>
  C7 (amended). In every state the Watcher reaches from its initial state, the active
  interval timers are exactly the one the Watcher holds while it is running, and none
  when it is stopped: there is a single active timer. That timer fires on its fixed
  interval whether or not a scan is in flight: whenever it is active its firing is
  possible and starts one more scan, without waiting for the scans already in flight.
\<close>

theorem single_timer_fixed_interval:
  assumes "run wcfg initialWatcher es = Some w"
  shows "activeTimers w = (case intervalId w of Some t \<Rightarrow> [t] | None \<Rightarrow> [])
       \<and> (isRunning w \<longleftrightarrow> intervalId w \<noteq> None)
       \<and> (\<forall>t. intervalId w = Some t \<longrightarrow>
             (\<exists>w'. step wcfg w (TimerFires t) = Some w' \<and> inFlight w' = inFlight w + 1))"
proof -
  have "timerInv initialWatcher" by (simp add: timerInv_def initialWatcher_def)
  hence inv: "timerInv w" using assms by (rule timerInv_run)
  thus ?thesis by (auto simp: timerInv_def beginCheck_def)
qed

lemma example_run:
  "run default_watcher_config initialWatcher [Start, Start, TimerFires 0, CheckCompletes]
     = Some \<lparr> isRunning = True, intervalId = Some 0, checkCount = 2, activeTimers = [0],
              nextTimerId = 1, inFlight = 1 \<rparr>"
  by (simp add: default_watcher_config_def initialWatcher_def start_def beginCheck_def
      Let_def)

text \<open>
  Started twice, one tick, one scan completed: one timer, and the next tick can fire
  while a scan is still in flight.
\<close>

theorem single_timer_fixed_interval_witness:
  "run default_watcher_config initialWatcher [Start, Start, TimerFires 0, CheckCompletes]
     = Some \<lparr> isRunning = True, intervalId = Some 0, checkCount = 2, activeTimers = [0],
              nextTimerId = 1, inFlight = 1 \<rparr>
   \<and> (\<exists>w'. step default_watcher_config
              \<lparr> isRunning = True, intervalId = Some 0, checkCount = 2, activeTimers = [0],
                nextTimerId = 1, inFlight = 1 \<rparr> (TimerFires 0) = Some w'
           \<and> inFlight w' = 2)"
proof -
  note h = example_run
  from single_timer_fixed_interval [OF h]
  have "\<exists>w'. step default_watcher_config
              \<lparr> isRunning = True, intervalId = Some 0, checkCount = 2, activeTimers = [0],
                nextTimerId = 1, inFlight = 1 \<rparr> (TimerFires 0) = Some w'
           \<and> inFlight w' = 1 + 1"
    by simp
  hence "\<exists>w'. step default_watcher_config
              \<lparr> isRunning = True, intervalId = Some 0, checkCount = 2, activeTimers = [0],
                nextTimerId = 1, inFlight = 1 \<rparr> (TimerFires 0) = Some w'
           \<and> inFlight w' = 2"
    by (simp only: one_add_one)
  with h show ?thesis by (rule conjI)
qed

text \<open>
  The Watcher is started and its timer fires before the initial check has completed:
  two scans are in flight at the same time.
\<close>

theorem scans_overlap_counterexample:
  "run default_watcher_config initialWatcher [Start, TimerFires 0]
     = Some \<lparr> isRunning = True, intervalId = Some 0, checkCount = 2, activeTimers = [0],
              nextTimerId = 1, inFlight = 2 \<rparr>"
  by (simp add: default_watcher_config_def initialWatcher_def start_def beginCheck_def
      Let_def)

subsection \<open>The estimated cost of a session file\<close>

lemma getProp_nonnull: "m \<noteq> JNull \<Longrightarrow> getProp m k = Inr (spec_field m k)"
  by (cases m) (simp_all add: spec_field_def)

lemma contentChars_amended: "contentChars str v = amended_contentChars str v"
proof (cases v)
  case None
  thus ?thesis by (simp add: contentChars_def)
next
  case (Some c)
  thus ?thesis by (cases c) (simp_all add: contentChars_def)
qed

lemma toolChars_amended: "toolChars str v = amended_toolChars str v"
proof (cases v)
  case None
  thus ?thesis by (simp add: toolChars_def)
next
  case (Some c)
  thus ?thesis by (cases c) (simp_all add: toolChars_def)
qed

lemma messageChars_nonnull:
  "m \<noteq> JNull \<Longrightarrow> messageChars str m = Inr (amended_messageChars str m)"
  by (simp add: messageChars_def amended_messageChars_def getProp_nonnull
      contentChars_amended toolChars_amended)

lemma messageChars_null: "messageChars str JNull = Inl TypeError"
  by (simp add: messageChars_def)

lemma countChars_nonnull:
  "JNull \<notin> set ms \<Longrightarrow>
   countChars str acc ms = Inr (acc + sum_list (map (amended_messageChars str) ms))"
  by (induction ms arbitrary: acc) (auto simp: messageChars_nonnull)

lemma countChars_null: "JNull \<in> set ms \<Longrightarrow> isl (countChars str acc ms)"
proof (induction ms arbitrary: acc)
  case Nil
  thus ?case by simp
next
  case (Cons m ms)
  show ?case
  proof (cases "m = JNull")
    case True
    thus ?thesis by (simp add: messageChars_null)
  next
    case False
    with Cons.prems have "JNull \<in> set ms" by simp
    hence "isl (countChars str (acc + amended_messageChars str m) ms)" by (rule Cons.IH)
    thus ?thesis using False by (simp add: messageChars_nonnull)
  qed
qed

lemma totalChars_traversable:
  assumes "rf_parsed f = Some session" and "session \<noteq> JNull"
    and "JNull \<notin> set (spec_messages session)"
  shows "totalChars str f = Inr (sum_list (map (amended_messageChars str) (spec_messages session)))"
proof (cases "spec_field session ''messages''")
  case None
  thus ?thesis using assms by (simp add: totalChars_def getProp_nonnull spec_messages_def)
next
  case (Some v)
  show ?thesis
  proof (cases v)
    case (JArr ms)
    with Some assms(3) have "JNull \<notin> set ms" by (simp add: spec_messages_def)
    hence "countChars str 0 ms = Inr (sum_list (map (amended_messageChars str) ms))"
      using countChars_nonnull [of ms str 0] by simp
    thus ?thesis using assms(1,2) Some JArr
      by (simp add: totalChars_def getProp_nonnull spec_messages_def)
  qed (use assms Some in \<open>simp_all add: totalChars_def getProp_nonnull spec_messages_def\<close>)
qed

lemma totalChars_not_traversable:
  assumes "\<not> traversable f"
  shows "isl (totalChars str f)"
proof (cases "rf_parsed f")
  case None
  thus ?thesis by (simp add: totalChars_def)
next
  case (Some session)
  show ?thesis
  proof (cases "session = JNull")
    case True
    thus ?thesis using Some by (simp add: totalChars_def)
  next
    case False
    with assms Some have n: "JNull \<in> set (spec_messages session)"
      by (simp add: traversable_def)
    have "\<exists>ms. spec_field session ''messages'' = Some (JArr ms) \<and> JNull \<in> set ms"
    proof (cases "spec_field session ''messages''")
      case None
      with n show ?thesis by (simp add: spec_messages_def)
    next
      case (Some v)
      with n show ?thesis by (cases v) (simp_all add: spec_messages_def)
    qed
    then obtain ms where ms: "spec_field session ''messages'' = Some (JArr ms)"
        "JNull \<in> set ms"
      by blast
    hence "isl (countChars str 0 ms)" using countChars_null by blast
    thus ?thesis using Some False ms by (simp add: totalChars_def getProp_nonnull)
  qed
qed

text \<open>
  C8 (amended). For a session file whose content parses to a value that is not \<^verbatim>\<open>null\<close>
  and whose message array holds no \<^verbatim>\<open>null\<close>, the estimated cost is the ceiling of a
  quarter of the characters of all messages. A message counts its content (the length of
  the string when it is a string, the length of its serialization otherwise), its tool
  calls and its tool results (the length of their serialization, also when they are
  strings); a payload that is absent or falsy counts nothing. For every other file
  (unreadable, unparsable, or parsed but with a \<^verbatim>\<open>null\<close> where the traversal reads a
  property) the estimate is the ceiling of a quarter of the file size, and 0 when the size
  cannot be read.
\<close>

theorem estimated_cost:
  "(rf_parsed f = Some session \<and> session \<noteq> JNull \<and> JNull \<notin> set (spec_messages session)
      \<longrightarrow> countSessionTokens str f
            = nat \<lceil>(of_nat (sum_list (map (amended_messageChars str) (spec_messages session)))
                     :: rat) / 4\<rceil>)
   \<and> (\<not> traversable f
      \<longrightarrow> countSessionTokens str f
            = (case rf_size f of Some sz \<Rightarrow> nat \<lceil>(of_nat sz :: rat) / 4\<rceil> | None \<Rightarrow> 0))"
proof (intro conjI impI)
  assume "rf_parsed f = Some session \<and> session \<noteq> JNull \<and>
          JNull \<notin> set (spec_messages session)"
  hence "totalChars str f = Inr (sum_list (map (amended_messageChars str) (spec_messages session)))"
    using totalChars_traversable by blast
  thus "countSessionTokens str f
            = nat \<lceil>(of_nat (sum_list (map (amended_messageChars str) (spec_messages session)))
                     :: rat) / 4\<rceil>"
    by (simp add: countSessionTokens_def ceilQuarter_def)
next
  assume "\<not> traversable f"
  hence "isl (totalChars str f)" by (rule totalChars_not_traversable)
  then obtain e where "totalChars str f = Inl e" by (cases "totalChars str f") auto
  thus "countSessionTokens str f
            = (case rf_size f of Some sz \<Rightarrow> nat \<lceil>(of_nat sz :: rat) / 4\<rceil> | None \<Rightarrow> 0)"
    by (simp add: countSessionTokens_def ceilQuarter_def split: option.splits)
qed

lemma toolSession_chars:
  "sum_list (map (amended_messageChars fragmentStringify) (spec_messages toolSession)) = 42"
  by (simp add: toolSession_def spec_messages_def spec_field_def amended_messageChars_def
      quoted_def)

text \<open>
  The session with tool payloads has 42 characters and costs \<open>\<lceil>42 / 4\<rceil> = 11\<close>; two
  messages of 5 and 4 characters cost \<open>\<lceil>9 / 4\<rceil> = 3\<close>; an unparsable file of 10 bytes
  costs \<open>\<lceil>10 / 4\<rceil> = 3\<close>.
\<close>

theorem estimated_cost_witness:
  "rf_parsed toolFile = Some toolSession
   \<and> toolSession \<noteq> JNull
   \<and> JNull \<notin> set (spec_messages toolSession)
   \<and> countSessionTokens fragmentStringify toolFile = 11
   \<and> countSessionTokens noSerializer twoMessageFile = 3
   \<and> \<not> traversable unparsableFile
   \<and> countSessionTokens noSerializer unparsableFile = 3"
proof -
  have h0: "rf_parsed toolFile = Some toolSession \<and> toolSession \<noteq> JNull
      \<and> JNull \<notin> set (spec_messages toolSession)"
    by (simp add: toolFile_def toolSession_def spec_messages_def spec_field_def)
  have h1: "rf_parsed twoMessageFile = Some twoMessageSession \<and> twoMessageSession \<noteq> JNull
      \<and> JNull \<notin> set (spec_messages twoMessageSession)"
    by (simp add: twoMessageFile_def twoMessageSession_def spec_messages_def spec_field_def)
  have h2: "\<not> traversable unparsableFile"
    by (simp add: traversable_def unparsableFile_def)
  note inst0 = estimated_cost
    [where f = toolFile and session = toolSession and str = fragmentStringify]
  note inst1 = estimated_cost
    [where f = twoMessageFile and session = twoMessageSession and str = noSerializer]
  note inst2 = estimated_cost [where f = unparsableFile and str = noSerializer]
  from inst0 h0 have "countSessionTokens fragmentStringify toolFile
      = nat \<lceil>(of_nat (sum_list (map (amended_messageChars fragmentStringify)
                 (spec_messages toolSession))) :: rat) / 4\<rceil>"
    by blast
  hence c0: "countSessionTokens fragmentStringify toolFile = 11"
    unfolding toolSession_chars by simp
  from inst1 h1 have "countSessionTokens noSerializer twoMessageFile
      = nat \<lceil>(of_nat (sum_list (map (amended_messageChars noSerializer)
                 (spec_messages twoMessageSession))) :: rat) / 4\<rceil>"
    by blast
  hence c1: "countSessionTokens noSerializer twoMessageFile = 3"
    by (simp add: twoMessageSession_def spec_messages_def spec_field_def
        amended_messageChars_def)
  from inst2 h2 have "countSessionTokens noSerializer unparsableFile
      = (case rf_size unparsableFile of
           Some sz \<Rightarrow> nat \<lceil>(of_nat sz :: rat) / 4\<rceil> | None \<Rightarrow> 0)"
    by blast
  hence c2: "countSessionTokens noSerializer unparsableFile = 3"
    by (simp add: unparsableFile_def)
  from h0 h2 c0 c1 c2 show ?thesis by simp
qed

text \<open>
  The file \<^verbatim>\<open>{"messages":[null]}\<close> parses, and it has no payload at all, so the
  estimate the specification words is 0; reading the content of the \<^verbatim>\<open>null\<close> message
  throws, and the code falls back to the file size: \<open>\<lceil>19 / 4\<rceil> = 5\<close>.
\<close>

theorem estimated_cost_counterexample:
  "countSessionTokens noSerializer nullMessageFile = 5
   \<and> spec_estimatedCost noSerializer nullMessageFile = 0"
  by (simp add: countSessionTokens_def totalChars_def messageChars_def nullMessageFile_def
      spec_estimatedCost_def spec_messages_def spec_field_def spec_messageChars_def
      spec_payloadChars_def ceilQuarter_def)

subsection \<open>The importance score\<close>

lemma importance_bounds:
  "0 \<le> calculateImportanceScore acfg fs \<and> calculateImportanceScore acfg fs \<le> 100"
  by (simp add: calculateImportanceScore_def Let_def)

lemma lower_example: "toLowerCase ''Error: request failed'' = ''error: request failed''"
  by (simp add: toLowerCase_def toLowerChar_def)

lemma noisy_error_rate: "calculateErrorRate noSerializer noisySession = Inr 3"
  by (simp add: calculateErrorRate_def noisySession_def messageErrors_def contentText_def
      lower_example Let_def)

lemmas outcome_defs =
  engagementOutcome_def toolUsageOutcome_def conversationDepthOutcome_def
  complexityOutcome_def uniquenessOutcome_def detailsOutcome_def countToolCallsOutcome_def
  avgMessageLengthOutcome_def conversationThreadsOutcome_def scanToolCalls_def
  readRole_def readText_def readToolCalls_def readFunctionName_def iterate_def
  truthyOpt_def lengthIsZero_def andThen_def contentText_def

lemma noisy_tryBlock: "tryBlock noSerializer noisySession = Inr 3"
proof -
  have "engagementOutcome noisySession = Inr ()"
    and "toolUsageOutcome noisySession = Inr ()"
    and "conversationDepthOutcome noSerializer noisySession = Inr ()"
    and "complexityOutcome noSerializer noisySession = Inr ()"
    and "uniquenessOutcome noisySession = Inr ()"
    and "detailsOutcome noSerializer noisySession = Inr ()"
    by (simp_all add: outcome_defs noisySession_def lower_example)
  thus ?thesis by (simp add: tryBlock_def andThen_def noisy_error_rate)
qed

text \<open>Without a message list the assembly of the details throws, and the score is 0.\<close>

lemma no_messages_score:
  "analyzeSessionScore str acfg others (JObj []) = 0"
  by (simp add: analyzeSessionScore_def tryBlock_def outcome_defs calculateErrorRate_def)

text \<open>
  C10. Whatever the session content and the other factors, the importance score that the
  Analyzer reports lies between 0 and 100. The error rate is not bounded by 1: a
  session of one message whose text reports an error and whose two tool results failed
  has the error rate 3, for which the penalty multiplier \<open>1 - 3 \<cdot> 0.5\<close> is negative; the
  clamp then gives the score 0.
\<close>

theorem importance_score_clamped:
  "0 \<le> analyzeSessionScore str acfg others sessionData
   \<and> analyzeSessionScore str acfg others sessionData \<le> 100
   \<and> calculateErrorRate noSerializer noisySession = Inr 3
   \<and> 1 - (3 :: rat) * (1 / 2) < 0
   \<and> analyzeSessionScore noSerializer default_analyzer_config someFactors noisySession = 0"
proof -
  have "0 \<le> analyzeSessionScore str acfg others sessionData
      \<and> analyzeSessionScore str acfg others sessionData \<le> 100"
    using importance_bounds by (simp add: analyzeSessionScore_def split: sum.splits)
  moreover have
    "analyzeSessionScore noSerializer default_analyzer_config someFactors noisySession = 0"
    by (simp add: analyzeSessionScore_def noisy_tryBlock calculateImportanceScore_def
        default_analyzer_config_def someFactors_def Let_def)
  ultimately show ?thesis using noisy_error_rate by simp
qed

text \<open>The score of the session with the error rate 3, and of a session with no messages.\<close>

theorem importance_score_clamped_witness:
  "0 \<le> analyzeSessionScore noSerializer default_analyzer_config someFactors noisySession
   \<and> analyzeSessionScore noSerializer default_analyzer_config someFactors noisySession \<le> 100
   \<and> 0 \<le> analyzeSessionScore noSerializer default_analyzer_config someFactors (JObj [])
   \<and> analyzeSessionScore noSerializer default_analyzer_config someFactors (JObj []) \<le> 100"
  using importance_score_clamped
          [of noSerializer default_analyzer_config someFactors noisySession]
        importance_score_clamped
          [of noSerializer default_analyzer_config someFactors "JObj []"]
  by blast

end
